theory Spec2Isabelle
  imports Main "HOL-Library.Word"
begin

text \<open>
  A model of \<^verbatim>\<open>class Logger\<close> (Logger.h, Logger.cpp): the static members as a record, the
  file system, the console and the clocks as a second record, and every member function
  as a function from both to both. The properties proved of it follow at the end.
\<close>

section \<open>Severity levels (Logger.h)\<close>

text \<open>
  \<^verbatim>\<open>enum Severity { eLOG_CRIT = 2, eLOG_HIGH, eLOG_MED, eLOG_LOW, eLOG_INFO, eLOG_DEBUG,
                  eLOG_LAST = eLOG_DEBUG, eLOG_DEFAULT = eLOG_MED };\<close>
  The test program calls \<^verbatim>\<open>setSeverity(Severity(i))\<close> for \<open>i\<close> from \<open>-1\<close> to \<open>9\<close>, so values
  outside the enumerators reach the logger: a severity is modelled by its numeric value.
  In a comparison and in \<^verbatim>\<open>stream << s\<close> the enumeration is promoted to \<^verbatim>\<open>int\<close>.
\<close>

type_synonym Severity = int

definition eLOG_CRIT :: Severity where "eLOG_CRIT = 2"
definition eLOG_HIGH :: Severity where "eLOG_HIGH = 3"
definition eLOG_MED :: Severity where "eLOG_MED = 4"
definition eLOG_LOW :: Severity where "eLOG_LOW = 5"
definition eLOG_INFO :: Severity where "eLOG_INFO = 6"
definition eLOG_DEBUG :: Severity where "eLOG_DEBUG = 7"
definition eLOG_LAST :: Severity where "eLOG_LAST = eLOG_DEBUG"
definition eLOG_DEFAULT :: Severity where "eLOG_DEFAULT = eLOG_MED"

lemmas severity_defs =
  eLOG_CRIT_def eLOG_HIGH_def eLOG_MED_def eLOG_LOW_def eLOG_INFO_def eLOG_DEBUG_def
  eLOG_LAST_def eLOG_DEFAULT_def

text \<open>
  \<^verbatim>\<open>s_severityString\<close> is a \<^verbatim>\<open>std::map<Severity, std::string>\<close> read with \<^verbatim>\<open>operator[]\<close>,
  which yields the empty string for a key that is absent. Both readers guard the key to
  the range of the enumerators, so the insertion \<^verbatim>\<open>operator[]\<close> would make is never reached.
\<close>

definition s_severityString_table :: "(Severity \<times> string) list" where
  "s_severityString_table =
     [(eLOG_CRIT, ''CRIT_''), (eLOG_HIGH, ''HIGH_''), (eLOG_MED, ''MED__''),
      (eLOG_LOW, ''LOW__''), (eLOG_INFO, ''INFO_''), (eLOG_DEBUG, ''DEBUG'')]"

definition s_severityString :: "Severity \<Rightarrow> string" where
  "s_severityString s = (case map_of s_severityString_table s of None \<Rightarrow> [] | Some t \<Rightarrow> t)"

text \<open>\<^verbatim>\<open>std::setfill(' ') << std::setw(4) << std::left\<close>: pad on the right up to the width.\<close>

definition setw_left :: "nat \<Rightarrow> string \<Rightarrow> string" where
  "setw_left n s = s @ replicate (n - length s) CHR '' ''"

definition severityToString :: "Severity \<Rightarrow> string" where
  "severityToString s =
     (if eLOG_CRIT \<le> s \<and> s \<le> eLOG_LAST then setw_left 4 (s_severityString s) else [])"

section \<open>Decimal output\<close>

definition digit :: "nat \<Rightarrow> char" where
  "digit d = ''0123456789'' ! (d mod 10)"

fun dec :: "nat \<Rightarrow> string" where
  "dec n = (if n < 10 then [digit n] else dec (n div 10) @ [digit (n mod 10)])"

declare dec.simps [simp del]

text \<open>\<^verbatim>\<open>stream << s\<close> for a severity prints its numeric value.\<close>

definition show_int :: "int \<Rightarrow> string" where
  "show_int i = (if i < 0 then CHR ''-'' # dec (nat (- i)) else dec (nat i))"

text \<open>\<^verbatim>\<open>%02d\<close> and \<^verbatim>\<open>%03d\<close> for a value that is not negative: zeros up to the width.\<close>

definition zero_pad :: "nat \<Rightarrow> nat \<Rightarrow> string" where
  "zero_pad width n = replicate (width - length (dec n)) CHR ''0'' @ dec n"

section \<open>The clock and the time strings\<close>

text \<open>
  The fields of \<^verbatim>\<open>struct tm\<close> that the format strings of the logger read. \<open>tm_year\<close>
  counts from 1900 and \<open>tm_mon\<close> from 0, as in C.
\<close>

record tm =
  tm_sec :: nat
  tm_min :: nat
  tm_hour :: nat
  tm_mday :: nat
  tm_mon :: nat
  tm_year :: nat

text \<open>The conversion specifications that occur in Logger.cpp.\<close>

definition strftime_conv :: "char \<Rightarrow> tm \<Rightarrow> string" where
  "strftime_conv c t =
     (if c = CHR ''Y'' then dec (1900 + tm_year t)
      else if c = CHR ''m'' then zero_pad 2 (tm_mon t + 1)
      else if c = CHR ''d'' then zero_pad 2 (tm_mday t)
      else if c = CHR ''H'' then zero_pad 2 (tm_hour t)
      else if c = CHR ''M'' then zero_pad 2 (tm_min t)
      else if c = CHR ''S'' then zero_pad 2 (tm_sec t)
      else if c = CHR ''F'' then
        dec (1900 + tm_year t) @ ''-'' @ zero_pad 2 (tm_mon t + 1) @ ''-'' @ zero_pad 2 (tm_mday t)
      else if c = CHR ''T'' then
        zero_pad 2 (tm_hour t) @ '':'' @ zero_pad 2 (tm_min t) @ '':'' @ zero_pad 2 (tm_sec t)
      else [CHR ''%'', c])"

fun strftime_expand :: "string \<Rightarrow> tm \<Rightarrow> string" where
  "strftime_expand [] t = []"
| "strftime_expand [c] t = [c]"
| "strftime_expand (c # d # cs) t =
     (if c = CHR ''%'' then strftime_conv d t @ strftime_expand cs t
      else c # strftime_expand (d # cs) t)"

text \<open>
  \<^verbatim>\<open>strftime(buf, max, fmt, tm)\<close> returns the number of characters written when the
  result and its terminating zero fit in \<open>maxsize\<close> bytes; otherwise it returns 0 and the
  contents of the array are unspecified. The arrays of the logger are uninitialised
  locals, so what they hold then is a parameter of the model (\<open>junk\<close>).
\<close>

definition strftime :: "nat \<Rightarrow> string \<Rightarrow> tm \<Rightarrow> string \<Rightarrow> nat \<times> string" where
  "strftime maxsize fmt t junk =
     (let s = strftime_expand fmt t in if length s < maxsize then (length s, s) else (0, junk))"

section \<open>The environment\<close>

text \<open>
  What the logger reaches outside its own fields:
  \<^item> the working directory of the process, and the directories \<^verbatim>\<open>chdir\<close> can enter;
  \<^item> what \<^verbatim>\<open>opendir\<close>/\<^verbatim>\<open>readdir\<close> answer for a directory (\<open>None\<close>: it cannot be opened);
  \<^item> the files by path with their contents, the time each was created, the paths a
    stream can be opened on and the paths \<^verbatim>\<open>unlink\<close> can remove;
  \<^item> the characters sent to standard output;
  \<^item> the clocks: reading number \<open>n\<close> of the process returns \<open>fs_wall n\<close> from
    \<^verbatim>\<open>time\<close>/\<^verbatim>\<open>localtime\<close> and \<open>fs_mono n\<close> (the nanoseconds field) from \<^verbatim>\<open>clock_gettime\<close>;
  \<^item> the contents of an array that \<^verbatim>\<open>strftime\<close> gave up on.
  Files are read and written only by the logger: nothing else changes them between two
  of its steps.
\<close>

record world =
  fs_cwd :: string
  fs_searchable :: "string \<Rightarrow> bool"
  fs_readdir :: "string \<Rightarrow> string list option"
  fs_files :: "string \<Rightarrow> string option"
  fs_openable :: "string \<Rightarrow> bool"
  fs_removable :: "string \<Rightarrow> bool"
  fs_born :: "string \<Rightarrow> tm"
  fs_stdout :: string
  fs_wall :: "nat \<Rightarrow> tm"
  fs_mono :: "nat \<Rightarrow> nat"
  fs_ticks :: nat
  fs_junk :: string

text \<open>
  A path that does not start with a slash is relative to the working directory. The
  empty path names nothing: every call on it fails.
\<close>

definition resolve :: "world \<Rightarrow> string \<Rightarrow> string" where
  "resolve w p = (if take 1 p = ''/'' then p else fs_cwd w @ ''/'' @ p)"

definition time_now :: "world \<Rightarrow> tm \<times> world" where
  "time_now w = (fs_wall w (fs_ticks w), w\<lparr>fs_ticks := fs_ticks w + 1\<rparr>)"

definition clock_gettime :: "world \<Rightarrow> nat \<times> world" where
  "clock_gettime w = (fs_mono w (fs_ticks w), w\<lparr>fs_ticks := fs_ticks w + 1\<rparr>)"

text \<open>\<^verbatim>\<open>getcwd(buf, size)\<close> fails when the path and its terminating zero do not fit.\<close>

definition getcwd :: "nat \<Rightarrow> world \<Rightarrow> string option" where
  "getcwd bufsize w = (if length (fs_cwd w) < bufsize then Some (fs_cwd w) else None)"

text \<open>\<^verbatim>\<open>(void)chdir(path)\<close>: the result is dropped, a failure leaves the directory as it was.\<close>

definition chdir :: "string \<Rightarrow> world \<Rightarrow> world" where
  "chdir p w =
     (if p \<noteq> [] \<and> fs_searchable w (resolve w p) then w\<lparr>fs_cwd := resolve w p\<rparr> else w)"

definition opendir :: "string \<Rightarrow> world \<Rightarrow> string list option" where
  "opendir p w = (if p = [] then None else fs_readdir w (resolve w p))"

text \<open>
  \<^verbatim>\<open>unlink(path)\<close>, its result dropped as the logger drops it: the file goes when the
  path can be removed, and nothing changes when it cannot.
\<close>

definition unlink :: "string \<Rightarrow> world \<Rightarrow> world" where
  "unlink p w =
     (if p \<noteq> [] \<and> fs_removable w (resolve w p)
      then w\<lparr>fs_files := (fs_files w)(resolve w p := None)\<rparr> else w)"

text \<open>
  An output stream: the path it was opened on and whether the opening succeeded.
  Opening with \<^verbatim>\<open>std::ios::app | std::ios::out\<close> creates the file when it is absent, at
  the time the clock shows, and keeps its contents when it is there.
\<close>

record ofstream =
  os_path :: string
  os_open :: bool

definition ofstream_new :: "string \<Rightarrow> world \<Rightarrow> ofstream \<times> world" where
  "ofstream_new p w =
     (let rp = resolve w p in
      if p \<noteq> [] \<and> fs_openable w rp then
        (\<lparr>os_path = rp, os_open = True\<rparr>,
         w\<lparr>fs_files := (fs_files w)(rp := Some (case fs_files w rp of None \<Rightarrow> [] | Some c \<Rightarrow> c)),
           fs_born := (case fs_files w rp of
                         None \<Rightarrow> (fs_born w)(rp := fs_wall w (fs_ticks w))
                       | Some c \<Rightarrow> fs_born w)\<rparr>)
      else (\<lparr>os_path = rp, os_open = False\<rparr>, w))"

text \<open>
  \<^verbatim>\<open>*m_logFile << text; m_logFile->flush();\<close> Every write is flushed at once, so the
  contents of the file are the model's state. A stream whose file has been unlinked
  writes to a file no path reaches any more: nothing visible changes.
\<close>

definition ofstream_write :: "ofstream \<Rightarrow> string \<Rightarrow> world \<Rightarrow> world" where
  "ofstream_write f s w =
     (case fs_files w (os_path f) of
        None \<Rightarrow> w
      | Some c \<Rightarrow> w\<lparr>fs_files := (fs_files w)(os_path f := Some (c @ s))\<rparr>)"

section \<open>The logger's fields (Logger.h)\<close>

text \<open>
  The static members of \<^verbatim>\<open>class Logger\<close>. \<^verbatim>\<open>m_logFile\<close> is a pointer: \<open>None\<close> is the null
  pointer. \<^verbatim>\<open>mMaxFileSize\<close> and \<^verbatim>\<open>mMaxFileNumber\<close> are \<^verbatim>\<open>unsigned int\<close>. The mutex, the
  instance pointer and the unused header string have no part in what follows.
\<close>

record logger =
  m_logFile :: "ofstream option"
  m_logFileName :: string
  mFileNameBase :: string
  m_leastSeverity :: Severity
  m_outString :: string
  mMaxFileSize :: "32 word"
  mMaxFileNumber :: "32 word"
  mBuffering :: bool
  mLogFileList :: "string list"
  mBufferList :: "string list"
  mUsingStdOut :: bool

definition DEFAULT_MAX_FILE_SIZE :: "64 word" where
  "DEFAULT_MAX_FILE_SIZE = 2 * 1024 * 1024"

definition DEFAULT_MAX_FILE_NUMBER :: "64 word" where
  "DEFAULT_MAX_FILE_NUMBER = 128"

section \<open>Time strings (Logger.cpp)\<close>

definition GetDateStr :: "bool \<Rightarrow> world \<Rightarrow> string \<times> world" where
  "GetDateStr useSep w =
     (let (local_time, w1) = time_now w;
          (idx, tsBuf) = (if useSep then strftime 16 ''%F'' local_time (fs_junk w1)
                          else strftime 16 ''%Y%m%d'' local_time (fs_junk w1))
      in (tsBuf, w1))"

text \<open>
  \<^verbatim>\<open>snprintf(&tsBuf[idx], sizeof(tsBuf), ".%03d", msec)\<close> overwrites the array from position
  \<open>idx\<close> on: the string is the first \<open>idx\<close> characters followed by the milliseconds.
\<close>

definition GetTimeStr :: "bool \<Rightarrow> bool \<Rightarrow> world \<Rightarrow> string \<times> world" where
  "GetTimeStr useSep useMsec w =
     (let (tv_nsec, w1) = clock_gettime w;
          msec = (tv_nsec div 1000000) mod 1000;
          (local_time, w2) = time_now w1;
          (idx, tsBuf) = (if useSep then strftime 32 ''%T'' local_time (fs_junk w2)
                          else strftime 32 ''%H%M%S'' local_time (fs_junk w2))
      in (if useMsec then take idx tsBuf @ ''.'' @ zero_pad 3 msec else tsBuf, w2))"

definition TimeStamp :: "bool \<Rightarrow> world \<Rightarrow> string \<times> world" where
  "TimeStamp useSep w =
     (let (tv_nsec, w1) = clock_gettime w;
          msec = (tv_nsec div 1000000) mod 1000;
          (local_time, w2) = time_now w1;
          (idx, tsBuf) = (if useSep then strftime 32 ''%F %T'' local_time (fs_junk w2)
                          else strftime 32 ''%Y%m%d %H%M%S'' local_time (fs_junk w2))
      in (take idx tsBuf @ ''.'' @ zero_pad 3 msec, w2))"

section \<open>Inline members (Logger.h)\<close>

definition MirrorToStdOut :: "logger \<Rightarrow> logger" where
  "MirrorToStdOut lg = lg\<lparr>mUsingStdOut := True\<rparr>"

text \<open>The setters take \<^verbatim>\<open>unsigned long\<close> and store into \<^verbatim>\<open>unsigned int\<close> fields.\<close>

definition SetMaxFileSize :: "64 word \<Rightarrow> logger \<Rightarrow> logger" where
  "SetMaxFileSize sz lg = lg\<lparr>mMaxFileSize := ucast sz\<rparr>"

definition SetMaxFileNumber :: "64 word \<Rightarrow> logger \<Rightarrow> logger" where
  "SetMaxFileNumber sz lg = lg\<lparr>mMaxFileNumber := ucast sz\<rparr>"

definition getSeverity :: "logger \<Rightarrow> Severity" where
  "getSeverity lg = m_leastSeverity lg"

definition isDisplayed :: "Severity \<Rightarrow> logger \<Rightarrow> bool" where
  "isDisplayed s lg = (s \<le> m_leastSeverity lg)"

text \<open>
  \<^verbatim>\<open>Flush\<close> flushes standard output and the stream. Writes are flushed as they are made
  in this model, so it changes nothing.
\<close>

definition Flush :: "logger \<Rightarrow> world \<Rightarrow> logger \<times> world" where
  "Flush lg w = (lg, w)"

text \<open>
  \<^verbatim>\<open>Size\<close> opens the file named \<^verbatim>\<open>m_logFileName\<close> for reading and returns \<^verbatim>\<open>tellg()\<close> at its
  end as a \<^verbatim>\<open>std::size_t\<close>. When the file cannot be opened \<^verbatim>\<open>tellg()\<close> is \<open>-1\<close>, which the
  conversion turns into \<open>2^64 - 1\<close>. The length of a file that exists is below \<open>2^63\<close>.
\<close>

definition Size :: "logger \<Rightarrow> world \<Rightarrow> nat" where
  "Size lg w =
     (if m_logFileName lg = [] then 2 ^ 64 - 1
      else case fs_files w (resolve w (m_logFileName lg)) of
             None \<Rightarrow> 2 ^ 64 - 1
           | Some c \<Rightarrow> length c)"

section \<open>Rotation and retention (Logger.cpp)\<close>

text \<open>
  \<^verbatim>\<open>std::string name(mFileNameBase + "_" + GetDateStr(false) + "_" + GetTimeStr(false, false) + ".log");\<close>
  The two calls read the clock one after the other, here from left to right.
\<close>

definition AddNewFileName :: "logger \<Rightarrow> world \<Rightarrow> logger \<times> world" where
  "AddNewFileName lg w =
     (let (d, w1) = GetDateStr False w;
          (t, w2) = GetTimeStr False False w1;
          name = mFileNameBase lg @ ''_'' @ d @ ''_'' @ t @ ''.log''
      in (lg\<lparr>mLogFileList := mLogFileList lg @ [name], m_logFileName := name\<rparr>, w2))"

text \<open>
  The loop at the end of \<^verbatim>\<open>EnforceLogFileLimits\<close>:
  \<^verbatim>\<open>while (mLogFileList.size() > mMaxFileNumber) { unlink(mLogFileList[0].c_str());
       mLogFileList.erase(mLogFileList.begin()); }\<close>
\<close>

function EnforceLogFileLimits_evict :: "logger \<Rightarrow> world \<Rightarrow> logger \<times> world" where
  "EnforceLogFileLimits_evict lg w =
     (if unat (mMaxFileNumber lg) < length (mLogFileList lg) then
        EnforceLogFileLimits_evict
          (lg\<lparr>mLogFileList := tl (mLogFileList lg)\<rparr>) (unlink (mLogFileList lg ! 0) w)
      else (lg, w))"
  by pat_completeness auto
termination
  by (relation "measure (\<lambda>(lg, w). length (mLogFileList lg))") auto

declare EnforceLogFileLimits_evict.simps [simp del]

definition EnforceLogFileLimits :: "logger \<Rightarrow> world \<Rightarrow> logger \<times> world" where
  "EnforceLogFileLimits lg w =
     (let (lg1, w1) =
        (if m_logFile lg \<noteq> None \<and> unat (mMaxFileSize lg) \<le> Size lg w then
           (let (lg', w') = AddNewFileName (lg\<lparr>m_logFile := None\<rparr>) w;
                (f, w'') = ofstream_new (m_logFileName lg') w'
            in (lg'\<lparr>m_logFile := Some f\<rparr>, w''))
         else (lg, w))
      in EnforceLogFileLimits_evict lg1 w1)"

section \<open>Writing a line (Logger.cpp)\<close>

text \<open>
  \<^verbatim>\<open>writeLog\<close> is always called on \<^verbatim>\<open>m_outString\<close>: it sends the text to standard output
  when mirroring is on, to the stream when there is one and it is open, empties the
  string stream and runs the limits.
\<close>

definition writeLog :: "logger \<Rightarrow> world \<Rightarrow> logger \<times> world" where
  "writeLog lg w =
     (let ss = m_outString lg;
          w1 = (if mUsingStdOut lg then w\<lparr>fs_stdout := fs_stdout w @ ss\<rparr> else w);
          w2 = (case m_logFile lg of
                  None \<Rightarrow> w1
                | Some f \<Rightarrow> if os_open f then ofstream_write f ss w1 else w1)
      in EnforceLogFileLimits (lg\<lparr>m_outString := []\<rparr>) w2)"

text \<open>
  \<^verbatim>\<open>log(Severity s, const std::string &input)\<close>. The overloads for a string stream and
  for a format string make the same test and build the same line from their text.
\<close>

definition log :: "Severity \<Rightarrow> string \<Rightarrow> logger \<Rightarrow> world \<Rightarrow> logger \<times> world" where
  "log s input lg w =
     (if s \<le> m_leastSeverity lg then
        (let (ts, w1) = TimeStamp True w
         in writeLog
              (lg\<lparr>m_outString :=
                    m_outString lg @ ts @ '' ['' @ severityToString s @ ''] '' @ input @ ''\<newline>''\<rparr>)
              w1)
      else (lg, w))"

definition setSeverity :: "Severity \<Rightarrow> logger \<Rightarrow> world \<Rightarrow> bool \<times> logger \<times> world" where
  "setSeverity s lg w =
     (if s < eLOG_CRIT \<or> s > eLOG_LAST then
        (let (ts, w1) = TimeStamp True w
         in (False,
             writeLog
               (lg\<lparr>m_outString :=
                     m_outString lg @ ts @ '' ERROR: Invalid verbosity specified, '' @ show_int s
                       @ ''\<newline>''\<rparr>)
               w1))
      else
        (let (ts, w1) = TimeStamp True w
         in (True,
             writeLog
               (lg\<lparr>m_outString :=
                     m_outString lg @ ts @ '' Set severity level to '' @ s_severityString s
                       @ ''\<newline>'',
                   m_leastSeverity := s\<rparr>)
               w1)))"

section \<open>The line buffer (Logger.cpp)\<close>

text \<open>
  \<^verbatim>\<open>Get\<close> on an empty buffer executes \<^verbatim>\<open>return NULL;\<close> in a function that returns
  \<^verbatim>\<open>std::string\<close>: a string built from a null pointer, which does not return a string.
  That outcome is \<open>None\<close>.
\<close>

definition Get :: "logger \<Rightarrow> (string \<times> logger) option" where
  "Get lg =
     (if mBufferList lg = [] then None
      else Some (mBufferList lg ! 0, lg\<lparr>mBufferList := tl (mBufferList lg)\<rparr>))"

lemma EnforceLogFileLimits_evict_mBufferList:
  "mBufferList (fst (EnforceLogFileLimits_evict lg w)) = mBufferList lg"
  by (induction lg w rule: EnforceLogFileLimits_evict.induct)
     (subst EnforceLogFileLimits_evict.simps, simp)

lemma AddNewFileName_mBufferList:
  "mBufferList (fst (AddNewFileName lg w)) = mBufferList lg"
  by (simp add: AddNewFileName_def Let_def split: prod.splits)

lemma EnforceLogFileLimits_mBufferList:
  "mBufferList (fst (EnforceLogFileLimits lg w)) = mBufferList lg"
proof -
  have "mBufferList (fst (AddNewFileName (lg\<lparr>m_logFile := None\<rparr>) w)) = mBufferList lg"
    by (simp add: AddNewFileName_mBufferList)
  then show ?thesis
    by (auto simp: EnforceLogFileLimits_def EnforceLogFileLimits_evict_mBufferList
             split: prod.splits)
qed

lemma writeLog_mBufferList:
  "mBufferList (fst (writeLog lg w)) = mBufferList lg"
  by (simp add: writeLog_def Let_def EnforceLogFileLimits_mBufferList)

text \<open>
  \<^verbatim>\<open>while (mBufferList.size()) { m_outString << Get(); writeLog(m_outString); } Flush();\<close>
  The loop ends because \<^verbatim>\<open>writeLog\<close> leaves the buffer alone and \<^verbatim>\<open>Get\<close> shortens it.
\<close>

function WriteToFile :: "logger \<Rightarrow> world \<Rightarrow> (logger \<times> world) option" where
  "WriteToFile lg w =
     (if length (mBufferList lg) \<noteq> 0 then
        (case Get lg of
           None \<Rightarrow> None
         | Some (line, lg1) \<Rightarrow>
             (case writeLog (lg1\<lparr>m_outString := m_outString lg1 @ line\<rparr>) w of
                (lg2, w2) \<Rightarrow> WriteToFile lg2 w2))
      else Some (Flush lg w))"
  by pat_completeness auto
termination
proof (relation "measure (\<lambda>(lg, w). length (mBufferList lg))")
  show "wf (measure (\<lambda>(lg, w). length (mBufferList lg)))"
    by simp
next
  fix lg :: logger and w :: world and x2 line lg1 lg2 w2
  assume nonempty: "length (mBufferList lg) \<noteq> 0"
    and get: "Get lg = Some x2" "(line, lg1) = x2"
    and wl: "(lg2, w2) = writeLog (lg1\<lparr>m_outString := m_outString lg1 @ line\<rparr>) w"
  from get nonempty have "mBufferList lg1 = tl (mBufferList lg)"
    by (auto simp: Get_def split: if_splits)
  moreover from wl have "mBufferList lg2 = mBufferList lg1"
    using writeLog_mBufferList [of "lg1\<lparr>m_outString := m_outString lg1 @ line\<rparr>" w]
    by (metis fst_conv logger.select_convs(10) logger.surjective logger.update_convs(5))
  ultimately show "((lg2, w2), (lg, w)) \<in> measure (\<lambda>(lg, w). length (mBufferList lg))"
    using nonempty by (cases "mBufferList lg") auto
qed

declare WriteToFile.simps [simp del]

text \<open>
  \<^verbatim>\<open>SetBuffering\<close>: going from on to off writes the buffer out, going from off to on
  clears it; the flag is assigned last.
\<close>

definition SetBuffering :: "bool \<Rightarrow> logger \<Rightarrow> world \<Rightarrow> (logger \<times> world) option" where
  "SetBuffering on lg w =
     (if mBuffering lg \<and> \<not> on then
        (case WriteToFile lg w of
           None \<Rightarrow> None
         | Some (lg1, w1) \<Rightarrow> Some (lg1\<lparr>mBuffering := on\<rparr>, w1))
      else if \<not> mBuffering lg \<and> on then
        Some (lg\<lparr>mBufferList := [], mBuffering := on\<rparr>, w)
      else Some (lg\<lparr>mBuffering := on\<rparr>, w))"

section \<open>Scanning the directory and opening the first file (Logger.cpp)\<close>

text \<open>
  \<^verbatim>\<open>int idx = mFileNameBase.find_last_of('/');\<close> The position of the last occurrence, and
  \<open>-1\<close> (\<^verbatim>\<open>npos\<close> stored in an \<^verbatim>\<open>int\<close>) when there is none.
\<close>

fun find_last_of :: "string \<Rightarrow> char \<Rightarrow> int" where
  "find_last_of [] c = - 1"
| "find_last_of (x # xs) c =
     (let r = find_last_of xs c in if 0 \<le> r then r + 1 else if x = c then 0 else - 1)"

definition EXIT_FAILURE :: int where
  "EXIT_FAILURE = 1"

text \<open>
  The body of the \<^verbatim>\<open>readdir\<close> loop, over the entries in the order the directory gives
  them. \<^verbatim>\<open>entry.substr(filenamebase.size())\<close> is the entry from that position to its end;
  the test on the size comes first, so the position is never past the end.
\<close>

fun MakeFileList_scan :: "string \<Rightarrow> nat \<Rightarrow> string \<Rightarrow> string list \<Rightarrow> string list \<Rightarrow> string list" where
  "MakeFileList_scan logDir nameLength filenamebase [] files = files"
| "MakeFileList_scan logDir nameLength filenamebase (entry # rest) files =
     MakeFileList_scan logDir nameLength filenamebase rest
       (if length entry = nameLength \<and> drop (length filenamebase) entry = filenamebase
        then files @ [logDir @ ''/'' @ entry] else files)"

definition MakeFileList :: "logger \<Rightarrow> world \<Rightarrow> bool \<times> logger \<times> world" where
  "MakeFileList lg w =
     (if mFileNameBase lg = [] then (False, lg, w)
      else
        (case getcwd 132 w of
           None \<Rightarrow> (False, lg, w)
         | Some workingDir \<Rightarrow>
             (let idx = find_last_of (mFileNameBase lg) CHR ''/'';
                  logDir =
                    (if 0 \<le> idx then
                       (if mFileNameBase lg ! 0 = CHR ''/'' then take (nat idx) (mFileNameBase lg)
                        else workingDir @ take (nat idx) (mFileNameBase lg))
                     else workingDir);
                  w1 = chdir logDir w;
                  lg1 = lg\<lparr>mLogFileList := []\<rparr>;
                  nameLength =
                    length (drop (nat (idx + 1)) (mFileNameBase lg)) + length ''_yyyy-MM-dd''
                      + length ''_HHmmss'';
                  filenamebase = drop (nat (idx + 1)) (mFileNameBase lg)
              in (case opendir logDir w1 of
                    Some entries \<Rightarrow>
                      (True,
                       lg1\<lparr>mLogFileList := MakeFileList_scan logDir nameLength filenamebase entries []\<rparr>,
                       chdir workingDir w1)
                  | None \<Rightarrow> (EXIT_FAILURE \<noteq> 0, lg1, w1)))))"


definition GenerateFileName :: "logger \<Rightarrow> world \<Rightarrow> bool \<times> logger \<times> world" where
  "GenerateFileName lg w =
     (if mFileNameBase lg = [] then (False, lg, w)
      else if mLogFileList lg = [] then
        (let (lg1, w1) = AddNewFileName lg w in (True, lg1, w1))
      else (True, lg\<lparr>m_logFileName := mLogFileList lg ! (length (mLogFileList lg) - 1)\<rparr>, w))"

text \<open>\<^verbatim>\<open>Open\<close>: \<^verbatim>\<open>new std::ofstream(...)\<close> never yields a null pointer, so the result is true
  whenever the stream object is made, open or not.\<close>

definition Open :: "logger \<Rightarrow> world \<Rightarrow> bool \<times> logger \<times> world" where
  "Open lg w =
     (if m_logFileName lg = [] then (False, lg, w)
      else
        (case getcwd 1024 w of
           None \<Rightarrow> (False, lg, w)
         | Some currentDir \<Rightarrow>
             (let pathIdx = find_last_of (m_logFileName lg) CHR ''/'';
                  lg1 = (if pathIdx < 0 then lg\<lparr>m_logFileName := currentDir @ ''/'' @ m_logFileName lg\<rparr>
                         else lg);
                  (f, w1) = ofstream_new (m_logFileName lg1) w
              in (True, lg1\<lparr>m_logFile := Some f\<rparr>, w1))))"

section \<open>Construction (Logger.cpp)\<close>

text \<open>The static members before any logger is constructed.\<close>

definition statics_init :: logger where
  "statics_init =
     \<lparr>m_logFile = None, m_logFileName = [], mFileNameBase = [], m_leastSeverity = 0,
      m_outString = [], mMaxFileSize = ucast DEFAULT_MAX_FILE_SIZE,
      mMaxFileNumber = ucast DEFAULT_MAX_FILE_NUMBER, mBuffering = False,
      mLogFileList = [], mBufferList = [], mUsingStdOut = False\<rparr>"

definition banner_rule :: string where
  "banner_rule = replicate 80 CHR ''-''"

text \<open>The lines of the opening banner. What goes to the error stream is left out.\<close>

definition start_banner :: "logger \<Rightarrow> world \<Rightarrow> logger \<times> world" where
  "start_banner lg w =
     (let (ts, w1) = TimeStamp True w
      in writeLog
           (lg\<lparr>m_outString :=
                 m_outString lg @ banner_rule @ ''\<newline>'' @ ''START: '' @ ts @ ''\<newline>''
                   @ '' filename = '' @ m_logFileName lg @ ''\<newline>''
                   @ '' severity = '' @ severityToString (m_leastSeverity lg) @ ''\<newline>''
                   @ banner_rule @ ''\<newline>''\<rparr>)
           w1)"

definition Logger_console :: "Severity \<Rightarrow> logger \<Rightarrow> world \<Rightarrow> logger \<times> world" where
  "Logger_console severity lg w =
     start_banner
       (lg\<lparr>m_leastSeverity := severity, m_logFileName := ''<STDOUT>'', mUsingStdOut := True,
           m_logFile := None, mBuffering := False\<rparr>)
       w"

definition Logger_file :: "string \<Rightarrow> Severity \<Rightarrow> logger \<Rightarrow> world \<Rightarrow> logger \<times> world" where
  "Logger_file baseName severity lg w =
     (let lg0 = lg\<lparr>m_leastSeverity := severity, mFileNameBase := baseName, mUsingStdOut := False,
                    mBuffering := True\<rparr>;
          (r1, lg1, w1) = MakeFileList lg0 w;
          (r2, lg2, w2) = GenerateFileName lg1 w1;
          (opened, lg3, w3) = Open lg2 w2
      in if opened then
           (let (lg4, w4) = EnforceLogFileLimits lg3 w3 in start_banner lg4 w4)
         else (lg3, w3))"

section \<open>Notions the properties are stated with\<close>

text \<open>
  The drain as the specification words it: the lines are written one after the other, in
  the order of the list, each by the write path of a line of its own.
\<close>

fun drain_spec :: "string list \<Rightarrow> logger \<Rightarrow> world \<Rightarrow> logger \<times> world" where
  "drain_spec [] lg w = (lg, w)"
| "drain_spec (l # ls) lg w =
     (case writeLog (lg\<lparr>m_outString := m_outString lg @ l\<rparr>) w of
        (lg', w') \<Rightarrow> drain_spec ls lg' w')"

text \<open>
  \<open>line_recorded text lg w w'\<close>: from the world \<open>w\<close> to the world \<open>w'\<close> the text has gone
  to every sink the logger \<open>lg\<close> has. Standard output, when mirroring is on, has grown by
  the text. The file of an open stream has grown by the text, unless the retention loop
  of the same call has unlinked that very file, which cannot happen while the tracked
  list is shorter than \<^verbatim>\<open>mMaxFileNumber\<close>.
\<close>

definition line_recorded :: "string \<Rightarrow> logger \<Rightarrow> world \<Rightarrow> world \<Rightarrow> bool" where
  "line_recorded text lg w w' \<longleftrightarrow>
     (mUsingStdOut lg \<longrightarrow> fs_stdout w' = fs_stdout w @ text) \<and>
     (case m_logFile lg of
        None \<Rightarrow> True
      | Some f \<Rightarrow>
          (case fs_files w (os_path f) of
             None \<Rightarrow> True
           | Some c \<Rightarrow>
               os_open f \<longrightarrow>
                 (fs_files w' (os_path f) = Some (c @ text) \<or> fs_files w' (os_path f) = None) \<and>
                 (length (mLogFileList lg) < unat (mMaxFileNumber lg) \<longrightarrow>
                    fs_files w' (os_path f) = Some (c @ text))))"

text \<open>
  The lines of a list written one after the other, each reaching the sinks the logger
  has at that moment.
\<close>

fun each_recorded :: "string list \<Rightarrow> logger \<Rightarrow> world \<Rightarrow> bool" where
  "each_recorded [] lg w = True"
| "each_recorded (l # ls) lg w =
     (case writeLog (lg\<lparr>m_outString := m_outString lg @ l\<rparr>) w of
        (lg', w') \<Rightarrow> line_recorded (m_outString lg @ l) lg w w' \<and> each_recorded ls lg' w')"

text \<open>
  The shape of a name after the base: in a shape \<open>#\<close> stands for one decimal digit and
  every other character for itself. \<open>spec_shape\<close> is the form the specification gives,
  with dashes in the date; \<open>code_shape\<close> is the form Logger.h documents for \<^verbatim>\<open>SetBaseName\<close>
  (\<^verbatim>\<open><basename>_YYYYMMDD_HHMMSS.log\<close>). \<open>tm_calendar\<close> holds of the broken-down times that
  \<^verbatim>\<open>localtime\<close> returns for years up to 9999.
\<close>

definition is_digit :: "char \<Rightarrow> bool" where
  "is_digit c \<longleftrightarrow> c \<in> set ''0123456789''"

fun matches_shape :: "string \<Rightarrow> string \<Rightarrow> bool" where
  "matches_shape [] [] = True"
| "matches_shape (p # ps) (c # cs) =
     ((if p = CHR ''#'' then is_digit c else c = p) \<and> matches_shape ps cs)"
| "matches_shape [] (c # cs) = False"
| "matches_shape (p # ps) [] = False"

definition rotated_name :: "string \<Rightarrow> string \<Rightarrow> string \<Rightarrow> bool" where
  "rotated_name shape base name \<longleftrightarrow>
     take (length base) name = base \<and> matches_shape shape (drop (length base) name)"

definition spec_shape :: string where
  "spec_shape = ''_####-##-##_######.log''"

definition code_shape :: string where
  "code_shape = ''_########_######.log''"


definition tm_calendar :: "tm \<Rightarrow> bool" where
  "tm_calendar t \<longleftrightarrow>
     tm_sec t \<le> 60 \<and> tm_min t < 60 \<and> tm_hour t < 24 \<and> 1 \<le> tm_mday t \<and> tm_mday t \<le> 31
     \<and> tm_mon t < 12 \<and> 1900 + tm_year t \<le> 9999"

section \<open>Example states\<close>

text \<open>
  A clock that stands at 2024-01-02 03:04:05; a working directory \<open>/home\<close> that can be
  listed, with three files of three characters each; a directory \<open>/logs\<close> that can be
  entered but not listed.
\<close>

definition tm_example :: tm where
  "tm_example = \<lparr>tm_sec = 5, tm_min = 4, tm_hour = 3, tm_mday = 2, tm_mon = 0, tm_year = 124\<rparr>"

definition world_example :: world where
  "world_example =
     \<lparr>fs_cwd = ''/home'', fs_searchable = (\<lambda>p. p = ''/home'' \<or> p = ''/logs''),
      fs_readdir =
        (\<lambda>p. if p = ''/home''
             then Some [''.'', ''..'', ''app_2024-01-02_030405'', ''app_20240102_030405.log'',
                        ''XXXXXXXXXXXXXXXXXXabcdefghijklmnopqr'']
             else None),
      fs_files = (\<lambda>p. if p \<in> set [''/home/a'', ''/home/b'', ''/home/c''] then Some ''old'' else None),
      fs_openable = (\<lambda>p. True), fs_removable = (\<lambda>p. True),
      fs_born = (\<lambda>p. tm_example\<lparr>tm_year := 123\<rparr>), fs_stdout = [],
      fs_wall = (\<lambda>n. tm_example), fs_mono = (\<lambda>n. 123456789), fs_ticks = 0, fs_junk = []\<rparr>"

text \<open>
  A logger given field by field: three tracked names, room for one, the console as sink
  and three lines in the buffer. Nothing in Logger.cpp adds to the buffer, so the lines
  are put there by hand.
\<close>

definition logger_three_files :: logger where
  "logger_three_files =
     statics_init\<lparr>mFileNameBase := ''app'', mLogFileList := [''a'', ''/home/b'', ''c''],
                  mMaxFileNumber := 1, mUsingStdOut := True, mBuffering := True,
                  mBufferList := [''L1'', ''L2'', ''L3'']\<rparr>"

text \<open>
  \<open>logger_app\<close> and \<open>world_app\<close> are what \<^verbatim>\<open>Logger log("app");\<close> leaves behind in the
  example world (\<open>Logger_file_example\<close>); \<open>logger_console\<close> is what \<^verbatim>\<open>Logger log(eLOG_MED);\<close>
  leaves.
\<close>

definition app_log :: string where
  "app_log = ''/home/app_20240102_030405.log''"

definition app_banner :: string where
  "app_banner =
     banner_rule @ ''\<newline>'' @ ''START: 2024-01-02 03:04:05.123'' @ ''\<newline>''
       @ '' filename = '' @ app_log @ ''\<newline>'' @ '' severity = MED__'' @ ''\<newline>''
       @ banner_rule @ ''\<newline>''"

definition logger_app :: logger where
  "logger_app =
     \<lparr>m_logFile = Some \<lparr>os_path = app_log, os_open = True\<rparr>, m_logFileName = app_log,
      mFileNameBase = ''app'', m_leastSeverity = eLOG_MED, m_outString = [],
      mMaxFileSize = ucast DEFAULT_MAX_FILE_SIZE, mMaxFileNumber = ucast DEFAULT_MAX_FILE_NUMBER,
      mBuffering = True, mLogFileList = [''app_20240102_030405.log''], mBufferList = [],
      mUsingStdOut = False\<rparr>"

definition world_app :: world where
  "world_app =
     world_example\<lparr>fs_files := (fs_files world_example)(app_log \<mapsto> app_banner),
                   fs_born := (fs_born world_example)(app_log := tm_example), fs_ticks := 5\<rparr>"

definition logger_console :: logger where
  "logger_console = fst (Logger_console eLOG_MED statics_init world_example)"

text \<open>
  The logger of \<open>Logger_file_example\<close> after \<^verbatim>\<open>SetMaxFileSize(100)\<close>, with and without
  \<^verbatim>\<open>SetMaxFileNumber(1)\<close>, with the text \<open>y\<close> waiting in \<^verbatim>\<open>m_outString\<close>; and the world of
  that logger when the clock has moved on to 03:04:59. The active file holds the opening
  banner, which is longer than 100 characters.
\<close>

definition logger_small :: logger where
  "logger_small = (SetMaxFileSize 100 (SetMaxFileNumber 1 logger_app))\<lparr>m_outString := ''y''\<rparr>"

definition logger_roomy :: logger where
  "logger_roomy = (SetMaxFileSize 100 logger_app)\<lparr>m_outString := ''y''\<rparr>"

definition world_later :: world where
  "world_later = world_app\<lparr>fs_wall := (\<lambda>n. tm_example\<lparr>tm_sec := 59\<rparr>)\<rparr>"





text \<open>
  The logger of \<open>Logger_file_example\<close> with two lines put in its buffer by hand, as it
  is and after \<^verbatim>\<open>SetMaxFileSize(100)\<close>.
\<close>

definition logger_app_buffered :: logger where
  "logger_app_buffered = logger_app\<lparr>mBufferList := [''L1'', ''L2'']\<rparr>"

definition logger_app_buffered_small :: logger where
  "logger_app_buffered_small = (SetMaxFileSize 100 logger_app)\<lparr>mBufferList := [''L1'', ''L2'']\<rparr>"

section \<open>Evaluating the examples\<close>

lemmas eval_defs =
  Logger_file_def MakeFileList_def getcwd_def chdir_def opendir_def resolve_def
  GenerateFileName_def AddNewFileName_def GetDateStr_def GetTimeStr_def time_now_def
  clock_gettime_def strftime_def strftime_conv_def zero_pad_def digit_def Open_def
  ofstream_new_def EnforceLogFileLimits_def Size_def EnforceLogFileLimits_evict.simps
  start_banner_def TimeStamp_def writeLog_def ofstream_write_def severityToString_def
  s_severityString_def s_severityString_table_def statics_init_def world_example_def
  tm_example_def DEFAULT_MAX_FILE_SIZE_def DEFAULT_MAX_FILE_NUMBER_def banner_rule_def
  severity_defs setw_left_def unlink_def log_def Let_def EXIT_FAILURE_def dec.simps

lemma Logger_file_example:
  "Logger_file ''app'' eLOG_MED statics_init world_example = (logger_app, world_app)"
  by (simp add: logger_app_def world_app_def app_log_def app_banner_def eval_defs)

section \<open>What the steps leave alone\<close>

text \<open>The time functions only advance the count of clock readings.\<close>

lemma TimeStamp_world: "snd (TimeStamp useSep w) = w\<lparr>fs_ticks := fs_ticks w + 2\<rparr>"
  by (simp add: TimeStamp_def clock_gettime_def time_now_def Let_def split: prod.splits)

lemma GetDateStr_world: "snd (GetDateStr useSep w) = w\<lparr>fs_ticks := fs_ticks w + 1\<rparr>"
  by (simp add: GetDateStr_def time_now_def Let_def split: prod.splits)

lemma GetTimeStr_world: "snd (GetTimeStr useSep useMsec w) = w\<lparr>fs_ticks := fs_ticks w + 2\<rparr>"
  by (simp add: GetTimeStr_def clock_gettime_def time_now_def Let_def split: prod.splits)

lemma AddNewFileName_eq:
  "AddNewFileName lg w =
     (lg\<lparr>mLogFileList := mLogFileList lg @ [m_logFileName (fst (AddNewFileName lg w))],
         m_logFileName := m_logFileName (fst (AddNewFileName lg w))\<rparr>,
      w\<lparr>fs_ticks := fs_ticks w + 3\<rparr>)"
proof -
  obtain d w1 where d: "GetDateStr False w = (d, w1)" by (cases "GetDateStr False w")
  obtain t w2 where t: "GetTimeStr False False w1 = (t, w2)" by (cases "GetTimeStr False False w1")
  from d have w1: "w1 = w\<lparr>fs_ticks := fs_ticks w + 1\<rparr>"
    using GetDateStr_world [of False w] by simp
  from t have w2: "w2 = w1\<lparr>fs_ticks := fs_ticks w1 + 2\<rparr>"
    using GetTimeStr_world [of False False w1] by simp
  have "AddNewFileName lg w =
     (let name = mFileNameBase lg @ ''_'' @ d @ ''_'' @ t @ ''.log''
      in (lg\<lparr>mLogFileList := mLogFileList lg @ [name], m_logFileName := name\<rparr>, w2))"
    by (simp add: AddNewFileName_def d t)
  then show ?thesis
    by (simp add: Let_def w1 w2)
qed

lemma evict_closed:
  "EnforceLogFileLimits_evict lg w =
     (lg\<lparr>mLogFileList := drop (length (mLogFileList lg) - unat (mMaxFileNumber lg)) (mLogFileList lg)\<rparr>,
      fold unlink (take (length (mLogFileList lg) - unat (mMaxFileNumber lg)) (mLogFileList lg)) w)"
proof (induction lg w rule: EnforceLogFileLimits_evict.induct)
  case (1 lg w)
  show ?case
  proof (cases "unat (mMaxFileNumber lg) < length (mLogFileList lg)")
    case False
    then show ?thesis
      by (subst EnforceLogFileLimits_evict.simps) simp
  next
    case True
    then obtain x xs where xs: "mLogFileList lg = x # xs"
      by (cases "mLogFileList lg") auto
    from True xs have k: "length (mLogFileList lg) - unat (mMaxFileNumber lg) = Suc (length xs - unat (mMaxFileNumber lg))"
      by simp
    show ?thesis
      apply (subst EnforceLogFileLimits_evict.simps)
      using True 1 [OF True] xs k by simp
  qed
qed

lemma fold_unlink_eq:
  "fold unlink ps w =
     w\<lparr>fs_files :=
         (\<lambda>p. if p \<in> resolve w ` (set ps - {[]}) \<and> fs_removable w p then None else fs_files w p)\<rparr>"
proof (induction ps arbitrary: w)
  case Nil
  then show ?case by simp
next
  case (Cons a ps)
  have r: "resolve (unlink a w) = resolve w" "fs_removable (unlink a w) = fs_removable w"
    by (simp_all add: resolve_def unlink_def fun_eq_iff)
  have f: "(\<lambda>p. if p \<in> resolve w ` (set ps - {[]}) \<and> fs_removable w p then None
                 else fs_files (unlink a w) p)
           = (\<lambda>p. if p \<in> resolve w ` (set (a # ps) - {[]}) \<and> fs_removable w p then None
                 else fs_files w p)"
    by (auto simp: unlink_def fun_eq_iff)
  have "fold unlink (a # ps) w =
          (unlink a w)\<lparr>fs_files :=
             (\<lambda>p. if p \<in> resolve w ` (set ps - {[]}) \<and> fs_removable w p then None
                  else fs_files (unlink a w) p)\<rparr>"
    by (simp add: Cons r)
  also have "\<dots> = w\<lparr>fs_files :=
             (\<lambda>p. if p \<in> resolve w ` (set ps - {[]}) \<and> fs_removable w p then None
                  else fs_files (unlink a w) p)\<rparr>"
    by (simp add: unlink_def)
  finally show ?case
    by (simp only: f)
qed

lemma EnforceLogFileLimits_keep:
  assumes "m_logFile lg = None \<or> Size lg w < unat (mMaxFileSize lg)"
  shows "EnforceLogFileLimits lg w = EnforceLogFileLimits_evict lg w"
  using assms by (auto simp: EnforceLogFileLimits_def)

lemma EnforceLogFileLimits_rotate:
  assumes "m_logFile lg \<noteq> None" and "unat (mMaxFileSize lg) \<le> Size lg w"
  shows "EnforceLogFileLimits lg w =
     (let n = m_logFileName (fst (AddNewFileName lg w));
          w1 = w\<lparr>fs_ticks := fs_ticks w + 3\<rparr>
      in EnforceLogFileLimits_evict
           (lg\<lparr>mLogFileList := mLogFileList lg @ [n], m_logFileName := n,
               m_logFile := Some (fst (ofstream_new n w1))\<rparr>)
           (snd (ofstream_new n w1)))"
proof -
  have n: "m_logFileName (fst (AddNewFileName (lg\<lparr>m_logFile := None\<rparr>) w))
             = m_logFileName (fst (AddNewFileName lg w))"
    by (simp add: AddNewFileName_def Let_def split: prod.splits)
  show ?thesis
    using assms
    apply (simp add: EnforceLogFileLimits_def)
    apply (subst AddNewFileName_eq)
    apply (simp add: n Let_def split: prod.splits)
    done
qed

section \<open>The drain loop\<close>

lemma WriteToFile_returns: "\<exists>lg' w'. WriteToFile lg w = Some (lg', w')"
proof (induction lg w rule: WriteToFile.induct)
  case (1 lg w)
  show ?case
  proof (cases "mBufferList lg")
    case Nil
    then show ?thesis
      by (subst WriteToFile.simps) (simp add: Flush_def)
  next
    case (Cons l ls)
    let ?lg1 = "lg\<lparr>mBufferList := ls\<rparr>"
    have g: "Get lg = Some (l, ?lg1)"
      by (simp add: Get_def Cons)
    obtain lg2 w2 where wl: "writeLog (lg\<lparr>mBufferList := ls, m_outString := m_outString lg @ l\<rparr>) w = (lg2, w2)"
      by (cases "writeLog (lg\<lparr>mBufferList := ls, m_outString := m_outString lg @ l\<rparr>) w")
    have ne: "length (mBufferList lg) \<noteq> 0"
      by (simp add: Cons)
    have "\<exists>lg' w'. WriteToFile lg2 w2 = Some (lg', w')"
      using "1" [OF ne g refl, of lg2 w2] wl by simp
    then show ?thesis
      by (subst WriteToFile.simps) (simp add: g wl ne)
  qed
qed

lemma evict_buffer_indep:
  "EnforceLogFileLimits_evict (lg\<lparr>mBufferList := b\<rparr>) w =
     ((fst (EnforceLogFileLimits_evict lg w))\<lparr>mBufferList := b\<rparr>, snd (EnforceLogFileLimits_evict lg w))"
  by (simp add: evict_closed)

lemma AddNewFileName_buffer_indep:
  "AddNewFileName (lg\<lparr>mBufferList := b\<rparr>) w =
     ((fst (AddNewFileName lg w))\<lparr>mBufferList := b\<rparr>, snd (AddNewFileName lg w))"
  by (simp add: AddNewFileName_def Let_def split: prod.splits)

lemma EnforceLogFileLimits_buffer_indep:
  "EnforceLogFileLimits (lg\<lparr>mBufferList := b\<rparr>) w =
     ((fst (EnforceLogFileLimits lg w))\<lparr>mBufferList := b\<rparr>, snd (EnforceLogFileLimits lg w))"
proof -
  have s: "Size (lg\<lparr>mBufferList := b\<rparr>) w = Size lg w"
    by (simp add: Size_def)
  have a: "AddNewFileName (lg\<lparr>mBufferList := b, m_logFile := None\<rparr>) w =
     ((fst (AddNewFileName (lg\<lparr>m_logFile := None\<rparr>) w))\<lparr>mBufferList := b\<rparr>,
      snd (AddNewFileName (lg\<lparr>m_logFile := None\<rparr>) w))"
    by (simp add: AddNewFileName_def Let_def split: prod.splits)
  have e: "\<And>l f w. EnforceLogFileLimits_evict (l\<lparr>mBufferList := b, m_logFile := f\<rparr>) w =
     ((fst (EnforceLogFileLimits_evict (l\<lparr>m_logFile := f\<rparr>) w))\<lparr>mBufferList := b\<rparr>,
       snd (EnforceLogFileLimits_evict (l\<lparr>m_logFile := f\<rparr>) w))"
    by (simp add: evict_closed)
  show ?thesis
    by (simp add: EnforceLogFileLimits_def s a e evict_buffer_indep split: prod.splits)
qed

lemma writeLog_buffer_indep:
  "writeLog (lg\<lparr>mBufferList := b\<rparr>) w =
     ((fst (writeLog lg w))\<lparr>mBufferList := b\<rparr>, snd (writeLog lg w))"
proof -
  have sw: "lg\<lparr>mBufferList := b, m_outString := []\<rparr> = lg\<lparr>m_outString := [], mBufferList := b\<rparr>"
    by (cases lg) simp
  show ?thesis
    by (simp add: writeLog_def Let_def sw EnforceLogFileLimits_buffer_indep)
qed

lemma WriteToFile_drain_spec:
  "mBufferList lg = ls \<Longrightarrow> WriteToFile lg w = Some (drain_spec ls (lg\<lparr>mBufferList := []\<rparr>) w)"
proof (induction ls arbitrary: lg w)
  case Nil
  then have "lg\<lparr>mBufferList := []\<rparr> = lg"
    by (cases lg) simp
  with Nil show ?case
    by (subst WriteToFile.simps) (simp add: Flush_def)
next
  case (Cons l ls)
  let ?x = "lg\<lparr>m_outString := m_outString lg @ l\<rparr>"
  obtain lg2 w2 where wl: "writeLog ?x w = (lg2, w2)"
    by (cases "writeLog ?x w")
  have sw: "lg\<lparr>mBufferList := ls, m_outString := m_outString lg @ l\<rparr> = ?x\<lparr>mBufferList := ls\<rparr>"
    "lg\<lparr>mBufferList := [], m_outString := m_outString lg @ l\<rparr> = ?x\<lparr>mBufferList := []\<rparr>"
    by (cases lg, simp)+
  have step: "WriteToFile lg w = WriteToFile (lg2\<lparr>mBufferList := ls\<rparr>) w2"
    using Cons.prems
    by (subst WriteToFile.simps) (simp add: Get_def sw writeLog_buffer_indep wl)
  have "WriteToFile (lg2\<lparr>mBufferList := ls\<rparr>) w2
          = Some (drain_spec ls (lg2\<lparr>mBufferList := ls\<rparr>\<lparr>mBufferList := []\<rparr>) w2)"
    by (rule Cons.IH) simp
  then show ?case
    by (simp add: step sw writeLog_buffer_indep wl)
qed

lemma EnforceLogFileLimits_stdout:
  "fs_stdout (snd (EnforceLogFileLimits lg w)) = fs_stdout w"
proof (cases "m_logFile lg \<noteq> None \<and> unat (mMaxFileSize lg) \<le> Size lg w")
  case True
  then show ?thesis
    by (simp add: EnforceLogFileLimits_rotate evict_closed fold_unlink_eq ofstream_new_def Let_def)
next
  case False
  then have "EnforceLogFileLimits lg w = EnforceLogFileLimits_evict lg w"
    by (intro EnforceLogFileLimits_keep) auto
  then show ?thesis
    by (simp add: evict_closed fold_unlink_eq)
qed

lemma writeLog_stdout:
  "fs_stdout (snd (writeLog lg w)) =
     (if mUsingStdOut lg then fs_stdout w @ m_outString lg else fs_stdout w)"
  by (simp add: writeLog_def Let_def EnforceLogFileLimits_stdout ofstream_write_def
           split: option.splits)

section \<open>Retention\<close>

lemma EnforceLogFileLimits_mMaxFileNumber:
  "mMaxFileNumber (fst (EnforceLogFileLimits lg w)) = mMaxFileNumber lg"
proof (cases "m_logFile lg \<noteq> None \<and> unat (mMaxFileSize lg) \<le> Size lg w")
  case True
  then show ?thesis
    by (simp add: EnforceLogFileLimits_rotate evict_closed Let_def)
next
  case False
  then have "EnforceLogFileLimits lg w = EnforceLogFileLimits_evict lg w"
    by (intro EnforceLogFileLimits_keep) auto
  then show ?thesis
    by (simp add: evict_closed)
qed






section \<open>A line reaching the sinks\<close>

lemma resolve_frame [simp]:
  "resolve (w\<lparr>fs_ticks := n\<rparr>) = resolve w"
  "resolve (w\<lparr>fs_files := fl\<rparr>) = resolve w"
  "resolve (w\<lparr>fs_stdout := out\<rparr>) = resolve w"
  by (simp_all add: resolve_def fun_eq_iff)

lemma EnforceLogFileLimits_file:
  assumes "fs_files w p = Some c"
  shows "(fs_files (snd (EnforceLogFileLimits lg w)) p = Some c
           \<or> fs_files (snd (EnforceLogFileLimits lg w)) p = None)
         \<and> (length (mLogFileList lg) < unat (mMaxFileNumber lg) \<longrightarrow>
               fs_files (snd (EnforceLogFileLimits lg w)) p = Some c)"
proof (cases "m_logFile lg \<noteq> None \<and> unat (mMaxFileSize lg) \<le> Size lg w")
  case True
  then show ?thesis
    using assms
    by (auto simp: EnforceLogFileLimits_rotate evict_closed fold_unlink_eq ofstream_new_def Let_def)
next
  case False
  then have "EnforceLogFileLimits lg w = EnforceLogFileLimits_evict lg w"
    by (intro EnforceLogFileLimits_keep) auto
  then show ?thesis
    using assms by (simp add: evict_closed fold_unlink_eq)
qed

lemma writeLog_recorded:
  "line_recorded (m_outString lg) lg w (snd (writeLog lg w))"
proof -
  have "fs_files (snd (writeLog lg w)) (os_path f) = Some (c @ m_outString lg)
          \<or> fs_files (snd (writeLog lg w)) (os_path f) = None"
    and "length (mLogFileList lg) < unat (mMaxFileNumber lg) \<longrightarrow>
           fs_files (snd (writeLog lg w)) (os_path f) = Some (c @ m_outString lg)"
    if "m_logFile lg = Some f" "fs_files w (os_path f) = Some c" "os_open f" for f c
  proof -
    let ?w1 = "if mUsingStdOut lg then w\<lparr>fs_stdout := fs_stdout w @ m_outString lg\<rparr> else w"
    have "fs_files (ofstream_write f (m_outString lg) ?w1) (os_path f) = Some (c @ m_outString lg)"
      using that by (simp add: ofstream_write_def)
    from EnforceLogFileLimits_file [OF this, of "lg\<lparr>m_outString := []\<rparr>"] that
    show "fs_files (snd (writeLog lg w)) (os_path f) = Some (c @ m_outString lg)
          \<or> fs_files (snd (writeLog lg w)) (os_path f) = None"
      and "length (mLogFileList lg) < unat (mMaxFileNumber lg) \<longrightarrow>
           fs_files (snd (writeLog lg w)) (os_path f) = Some (c @ m_outString lg)"
      by (simp_all add: writeLog_def Let_def)
  qed
  then show ?thesis
    by (auto simp: line_recorded_def writeLog_stdout split: option.splits)
qed

lemma line_recorded_cong:
  assumes "mUsingStdOut lg = mUsingStdOut lg2" "m_logFile lg = m_logFile lg2"
    "mLogFileList lg = mLogFileList lg2" "mMaxFileNumber lg = mMaxFileNumber lg2"
    "fs_stdout w = fs_stdout w2" "fs_files w = fs_files w2"
  shows "line_recorded text lg w w' = line_recorded text lg2 w2 w'"
  using assms by (simp add: line_recorded_def split: option.splits)

lemma writeLog_line_recorded:
  "line_recorded text lg w (snd (writeLog (lg\<lparr>m_outString := text\<rparr>) (w\<lparr>fs_ticks := n\<rparr>)))"
proof -
  have "line_recorded text (lg\<lparr>m_outString := text\<rparr>) (w\<lparr>fs_ticks := n\<rparr>)
          (snd (writeLog (lg\<lparr>m_outString := text\<rparr>) (w\<lparr>fs_ticks := n\<rparr>)))"
    using writeLog_recorded [of "lg\<lparr>m_outString := text\<rparr>" "w\<lparr>fs_ticks := n\<rparr>"] by simp
  moreover have "line_recorded text (lg\<lparr>m_outString := text\<rparr>) (w\<lparr>fs_ticks := n\<rparr>)
          (snd (writeLog (lg\<lparr>m_outString := text\<rparr>) (w\<lparr>fs_ticks := n\<rparr>)))
        = line_recorded text lg w
          (snd (writeLog (lg\<lparr>m_outString := text\<rparr>) (w\<lparr>fs_ticks := n\<rparr>)))"
    by (rule line_recorded_cong) simp_all
  ultimately show ?thesis
    by simp
qed

section \<open>The buffer\<close>

lemma EnforceLogFileLimits_frame:
  "m_outString (fst (EnforceLogFileLimits lg w)) = m_outString lg"
  "mUsingStdOut (fst (EnforceLogFileLimits lg w)) = mUsingStdOut lg"
  "mBuffering (fst (EnforceLogFileLimits lg w)) = mBuffering lg"
  "m_leastSeverity (fst (EnforceLogFileLimits lg w)) = m_leastSeverity lg"
  "mMaxFileSize (fst (EnforceLogFileLimits lg w)) = mMaxFileSize lg"
  "mFileNameBase (fst (EnforceLogFileLimits lg w)) = mFileNameBase lg"
proof -
  have "m_outString (fst (EnforceLogFileLimits lg w)) = m_outString lg
    \<and> mUsingStdOut (fst (EnforceLogFileLimits lg w)) = mUsingStdOut lg
    \<and> mBuffering (fst (EnforceLogFileLimits lg w)) = mBuffering lg
    \<and> m_leastSeverity (fst (EnforceLogFileLimits lg w)) = m_leastSeverity lg
    \<and> mMaxFileSize (fst (EnforceLogFileLimits lg w)) = mMaxFileSize lg
    \<and> mFileNameBase (fst (EnforceLogFileLimits lg w)) = mFileNameBase lg"
  proof (cases "m_logFile lg \<noteq> None \<and> unat (mMaxFileSize lg) \<le> Size lg w")
    case True
    then show ?thesis
      by (simp add: EnforceLogFileLimits_rotate evict_closed Let_def)
  next
    case False
    then have "EnforceLogFileLimits lg w = EnforceLogFileLimits_evict lg w"
      by (intro EnforceLogFileLimits_keep) auto
    then show ?thesis
      by (simp add: evict_closed)
  qed
  then show
    "m_outString (fst (EnforceLogFileLimits lg w)) = m_outString lg"
    "mUsingStdOut (fst (EnforceLogFileLimits lg w)) = mUsingStdOut lg"
    "mBuffering (fst (EnforceLogFileLimits lg w)) = mBuffering lg"
    "m_leastSeverity (fst (EnforceLogFileLimits lg w)) = m_leastSeverity lg"
    "mMaxFileSize (fst (EnforceLogFileLimits lg w)) = mMaxFileSize lg"
    "mFileNameBase (fst (EnforceLogFileLimits lg w)) = mFileNameBase lg"
    by simp_all
qed

lemma writeLog_frame:
  "m_outString (fst (writeLog lg w)) = []"
  "mUsingStdOut (fst (writeLog lg w)) = mUsingStdOut lg"
  "mBuffering (fst (writeLog lg w)) = mBuffering lg"
  "m_leastSeverity (fst (writeLog lg w)) = m_leastSeverity lg"
  "mMaxFileNumber (fst (writeLog lg w)) = mMaxFileNumber lg"
  "mMaxFileSize (fst (writeLog lg w)) = mMaxFileSize lg"
  "mFileNameBase (fst (writeLog lg w)) = mFileNameBase lg"
  by (simp_all add: writeLog_def Let_def EnforceLogFileLimits_frame
        EnforceLogFileLimits_mMaxFileNumber)

lemma drain_spec_frame:
  "mBufferList (fst (drain_spec ls lg w)) = mBufferList lg
   \<and> mUsingStdOut (fst (drain_spec ls lg w)) = mUsingStdOut lg
   \<and> mBuffering (fst (drain_spec ls lg w)) = mBuffering lg"
proof (induction ls arbitrary: lg w)
  case Nil
  show ?case by simp
next
  case (Cons l ls)
  obtain lg2 w2 where wl: "writeLog (lg\<lparr>m_outString := m_outString lg @ l\<rparr>) w = (lg2, w2)"
    by (cases "writeLog (lg\<lparr>m_outString := m_outString lg @ l\<rparr>) w")
  have a: "mBufferList lg2 = mBufferList lg" "mUsingStdOut lg2 = mUsingStdOut lg"
      "mBuffering lg2 = mBuffering lg"
    using writeLog_mBufferList [of "lg\<lparr>m_outString := m_outString lg @ l\<rparr>" w]
      writeLog_frame(2,3) [of "lg\<lparr>m_outString := m_outString lg @ l\<rparr>" w] wl
    by simp_all
  show ?case
    by (simp add: wl Cons.IH a)
qed

lemma drain_spec_stdout:
  "mUsingStdOut lg \<Longrightarrow>
     fs_stdout (snd (drain_spec ls lg w)) =
       fs_stdout w @ (if ls = [] then [] else m_outString lg @ concat ls)"
proof (induction ls arbitrary: lg w)
  case Nil
  then show ?case by simp
next
  case (Cons l ls)
  let ?x = "lg\<lparr>m_outString := m_outString lg @ l\<rparr>"
  obtain lg2 w2 where wl: "writeLog ?x w = (lg2, w2)"
    by (cases "writeLog ?x w")
  have a: "mUsingStdOut lg2" "m_outString lg2 = []" "fs_stdout w2 = fs_stdout w @ m_outString lg @ l"
    using writeLog_frame(1,2) [of ?x w] writeLog_stdout [of ?x w] wl Cons.prems
    by simp_all
  show ?case
    using Cons.IH [OF a(1), of w2] by (simp add: wl a)
qed

text \<open>
  Claim C10. \<^verbatim>\<open>WriteToFile\<close> always returns: the branch of \<^verbatim>\<open>Get\<close> that builds a string
  from a null pointer (\<open>None\<close> here, which the loop would pass on) is never taken in it,
  because \<^verbatim>\<open>Get\<close> is called only under the loop's test that the buffer is not empty.
  \<^verbatim>\<open>Get\<close> takes that branch exactly on the empty buffer; on a buffer that is not empty it
  returns the head and leaves the buffer one element shorter.
\<close>

theorem Get_in_drain:
  "(\<exists>lg' w'. WriteToFile lg w = Some (lg', w'))
   \<and> (Get lg = None \<longleftrightarrow> mBufferList lg = [])
   \<and> (mBufferList lg \<noteq> [] \<longrightarrow>
        (\<exists>line lg1. Get lg = Some (line, lg1)
           \<and> line = hd (mBufferList lg)
           \<and> mBufferList lg1 = tl (mBufferList lg)
           \<and> length (mBufferList lg1) + 1 = length (mBufferList lg)))"
proof -
  have "mBufferList lg \<noteq> [] \<longrightarrow> mBufferList lg ! 0 = hd (mBufferList lg)"
    by (cases "mBufferList lg") simp_all
  then show ?thesis
    using WriteToFile_returns [of lg w] by (auto simp: Get_def)
qed

theorem Get_in_drain_witness:
  "WriteToFile logger_three_files world_example \<noteq> None
   \<and> Get logger_three_files = Some (''L1'', logger_three_files\<lparr>mBufferList := [''L2'', ''L3'']\<rparr>)"
proof -
  have b: "mBufferList logger_three_files = [''L1'', ''L2'', ''L3'']"
    by (simp add: logger_three_files_def statics_init_def)
  from Get_in_drain [of logger_three_files world_example]
  show ?thesis
    by (auto simp: b Get_def)
qed

text \<open>
  A write that stays below both limits: the text goes to the console when mirroring is
  on and to the end of the active file, and nothing else changes.
\<close>

lemma writeLog_quiet:
  assumes "m_logFile lg = Some f" "os_open f" "fs_files w (os_path f) = Some c"
    "m_logFileName lg \<noteq> []" "resolve w (m_logFileName lg) = os_path f"
    "length (c @ m_outString lg) < unat (mMaxFileSize lg)"
    "length (mLogFileList lg) \<le> unat (mMaxFileNumber lg)"
  shows "writeLog lg w =
     (lg\<lparr>m_outString := []\<rparr>,
      (if mUsingStdOut lg then w\<lparr>fs_stdout := fs_stdout w @ m_outString lg\<rparr> else w)
        \<lparr>fs_files := (fs_files w)(os_path f \<mapsto> c @ m_outString lg)\<rparr>)"
proof -
  let ?w1 = "if mUsingStdOut lg then w\<lparr>fs_stdout := fs_stdout w @ m_outString lg\<rparr> else w"
  let ?w2 = "?w1\<lparr>fs_files := (fs_files w)(os_path f \<mapsto> c @ m_outString lg)\<rparr>"
  have w2: "ofstream_write f (m_outString lg) ?w1 = ?w2"
    using assms(3) by (simp add: ofstream_write_def)
  have r2: "resolve ?w2 = resolve w"
    by (simp add: resolve_def fun_eq_iff)
  have sz: "Size (lg\<lparr>m_outString := []\<rparr>) ?w2 = length (c @ m_outString lg)"
    using assms(4,5) by (simp add: Size_def r2)
  have keep: "EnforceLogFileLimits (lg\<lparr>m_outString := []\<rparr>) ?w2
      = EnforceLogFileLimits_evict (lg\<lparr>m_outString := []\<rparr>) ?w2"
    by (rule EnforceLogFileLimits_keep) (use assms(6) sz in simp)
  have none: "EnforceLogFileLimits_evict (lg\<lparr>m_outString := []\<rparr>) ?w2 = (lg\<lparr>m_outString := []\<rparr>, ?w2)"
    using assms(7) by (subst EnforceLogFileLimits_evict.simps) simp
  have "writeLog lg w = EnforceLogFileLimits (lg\<lparr>m_outString := []\<rparr>) (ofstream_write f (m_outString lg) ?w1)"
    using assms(1,2) by (simp add: writeLog_def Let_def)
  then show ?thesis
    by (simp only: w2 keep none)
qed

lemma drain_spec_file:
  assumes "m_logFile lg = Some f" "os_open f" "fs_files w (os_path f) = Some c"
    "m_logFileName lg \<noteq> []" "resolve w (m_logFileName lg) = os_path f"
    "length (c @ m_outString lg @ concat ls) < unat (mMaxFileSize lg)"
    "length (mLogFileList lg) \<le> unat (mMaxFileNumber lg)"
  shows "fs_files (snd (drain_spec ls lg w)) (os_path f)
           = Some (c @ (if ls = [] then [] else m_outString lg @ concat ls))
         \<and> m_logFile (fst (drain_spec ls lg w)) = Some f
         \<and> mLogFileList (fst (drain_spec ls lg w)) = mLogFileList lg"
  using assms
proof (induction ls arbitrary: lg w c)
  case Nil
  then show ?case by simp
next
  case (Cons l ls)
  let ?x = "lg\<lparr>m_outString := m_outString lg @ l\<rparr>"
  let ?w2 = "(if mUsingStdOut lg then w\<lparr>fs_stdout := fs_stdout w @ m_outString lg @ l\<rparr> else w)
        \<lparr>fs_files := (fs_files w)(os_path f \<mapsto> c @ m_outString lg @ l)\<rparr>"
  have q: "writeLog ?x w = (?x\<lparr>m_outString := []\<rparr>, ?w2)"
    using writeLog_quiet [of ?x f w c] Cons.prems by simp
  have r: "resolve ?w2 = resolve w"
    by (simp add: resolve_def fun_eq_iff)
  have ih: "fs_files (snd (drain_spec ls (?x\<lparr>m_outString := []\<rparr>) ?w2)) (os_path f)
           = Some ((c @ m_outString lg @ l) @ (if ls = [] then [] else [] @ concat ls))
         \<and> m_logFile (fst (drain_spec ls (?x\<lparr>m_outString := []\<rparr>) ?w2)) = Some f
         \<and> mLogFileList (fst (drain_spec ls (?x\<lparr>m_outString := []\<rparr>) ?w2)) = mLogFileList lg"
    using Cons.IH [of "?x\<lparr>m_outString := []\<rparr>" ?w2 "c @ m_outString lg @ l"] Cons.prems
    by (simp add: r)
  show ?case
    using ih by (simp add: q)
qed

lemma drain_each_recorded: "each_recorded ls lg w"
proof (induction ls arbitrary: lg w)
  case Nil
  show ?case by simp
next
  case (Cons l ls lg w)
  obtain lg2 w2 where q: "writeLog (lg\<lparr>m_outString := m_outString lg @ l\<rparr>) w = (lg2, w2)"
    by (cases "writeLog (lg\<lparr>m_outString := m_outString lg @ l\<rparr>) w")
  have "line_recorded (m_outString lg @ l) (lg\<lparr>m_outString := m_outString lg @ l\<rparr>) w w2"
    using writeLog_recorded [of "lg\<lparr>m_outString := m_outString lg @ l\<rparr>" w] q by simp
  moreover have "line_recorded (m_outString lg @ l) (lg\<lparr>m_outString := m_outString lg @ l\<rparr>) w w2
      = line_recorded (m_outString lg @ l) lg w w2"
    by (rule line_recorded_cong) simp_all
  ultimately have "line_recorded (m_outString lg @ l) lg w w2"
    by simp
  then show ?case
    using Cons.IH [of lg2 w2] by (simp add: q)
qed

text \<open>
  Claim C8. Draining a buffer that holds \<open>L1, ..., Ln\<close> returns, leaves the buffer empty
  and is the same as writing \<open>L1\<close>, then \<open>L2\<close>, ..., then \<open>Ln\<close>, each through
  \<^verbatim>\<open>writeLog\<close>, and each reaches the sinks the logger has when its turn comes, also when
  the file changes on the way. With the console as sink the output grows by exactly
  these lines in this order. With an open file as sink, named by \<^verbatim>\<open>m_logFileName\<close>, and
  neither limit reached on the way, the file grows by exactly these lines in this order
  and stays the active file. The drain does not touch the buffering flag: \<^verbatim>\<open>SetBuffering(false)\<close> on a logger
  that buffers is the whole drain followed by the assignment of the flag. (In the last
  example below the first line fills the file up to its limit and the second goes to
  the file the rotation opens.)
\<close>

theorem WriteToFile_fifo:
  "\<exists>lg' w'. WriteToFile lg w = Some (lg', w')
       \<and> drain_spec (mBufferList lg) (lg\<lparr>mBufferList := []\<rparr>) w = (lg', w')
       \<and> mBufferList lg' = []
       \<and> mBuffering lg' = mBuffering lg
       \<and> each_recorded (mBufferList lg) (lg\<lparr>mBufferList := []\<rparr>) w
       \<and> (mUsingStdOut lg \<and> mBufferList lg \<noteq> [] \<longrightarrow>
            fs_stdout w' = fs_stdout w @ m_outString lg @ concat (mBufferList lg))
       \<and> (\<forall>f c. m_logFile lg = Some f \<and> os_open f \<and> fs_files w (os_path f) = Some c
              \<and> m_logFileName lg \<noteq> [] \<and> resolve w (m_logFileName lg) = os_path f
              \<and> length (c @ m_outString lg @ concat (mBufferList lg)) < unat (mMaxFileSize lg)
              \<and> length (mLogFileList lg) \<le> unat (mMaxFileNumber lg)
              \<and> mBufferList lg \<noteq> [] \<longrightarrow>
            fs_files w' (os_path f) = Some (c @ m_outString lg @ concat (mBufferList lg))
            \<and> m_logFile lg' = Some f)
       \<and> (mBuffering lg \<longrightarrow>
            SetBuffering False lg w = Some (lg'\<lparr>mBuffering := False\<rparr>, w'))"
proof -
  let ?r = "drain_spec (mBufferList lg) (lg\<lparr>mBufferList := []\<rparr>) w"
  have c1: "WriteToFile lg w = Some (fst ?r, snd ?r)"
    using WriteToFile_drain_spec [of lg "mBufferList lg" w] by simp
  have c2: "?r = (fst ?r, snd ?r)"
    by simp
  have c3: "mBufferList (fst ?r) = []" and c4: "mBuffering (fst ?r) = mBuffering lg"
    using drain_spec_frame [of "mBufferList lg" "lg\<lparr>mBufferList := []\<rparr>" w] by simp_all
  have c5: "mUsingStdOut lg \<and> mBufferList lg \<noteq> [] \<longrightarrow>
            fs_stdout (snd ?r) = fs_stdout w @ m_outString lg @ concat (mBufferList lg)"
    using drain_spec_stdout [of "lg\<lparr>mBufferList := []\<rparr>" "mBufferList lg" w] by simp
  have c6: "\<forall>f c. m_logFile lg = Some f \<and> os_open f \<and> fs_files w (os_path f) = Some c
              \<and> m_logFileName lg \<noteq> [] \<and> resolve w (m_logFileName lg) = os_path f
              \<and> length (c @ m_outString lg @ concat (mBufferList lg)) < unat (mMaxFileSize lg)
              \<and> length (mLogFileList lg) \<le> unat (mMaxFileNumber lg)
              \<and> mBufferList lg \<noteq> [] \<longrightarrow>
            fs_files (snd ?r) (os_path f) = Some (c @ m_outString lg @ concat (mBufferList lg))
            \<and> m_logFile (fst ?r) = Some f"
  proof (intro allI impI)
    fix f c
    assume h: "m_logFile lg = Some f \<and> os_open f \<and> fs_files w (os_path f) = Some c
              \<and> m_logFileName lg \<noteq> [] \<and> resolve w (m_logFileName lg) = os_path f
              \<and> length (c @ m_outString lg @ concat (mBufferList lg)) < unat (mMaxFileSize lg)
              \<and> length (mLogFileList lg) \<le> unat (mMaxFileNumber lg)
              \<and> mBufferList lg \<noteq> []"
    then show "fs_files (snd ?r) (os_path f) = Some (c @ m_outString lg @ concat (mBufferList lg))
            \<and> m_logFile (fst ?r) = Some f"
      using drain_spec_file [of "lg\<lparr>mBufferList := []\<rparr>" f w c "mBufferList lg"] by simp
  qed
  have c7: "mBuffering lg \<longrightarrow>
            SetBuffering False lg w = Some ((fst ?r)\<lparr>mBuffering := False\<rparr>, snd ?r)"
    using WriteToFile_drain_spec [of lg "mBufferList lg" w]
    by (simp add: SetBuffering_def split: prod.splits)
  show ?thesis
    by (rule exI [of _ "fst ?r"], rule exI [of _ "snd ?r"]) (intro conjI c1 c2 c3 c4 c5 c6 c7 drain_each_recorded)
qed

theorem WriteToFile_fifo_witness:
  "(\<exists>lg' w'. WriteToFile logger_three_files world_example = Some (lg', w')
      \<and> mBufferList lg' = [] \<and> fs_stdout w' = ''L1L2L3''
      \<and> SetBuffering False logger_three_files world_example = Some (lg'\<lparr>mBuffering := False\<rparr>, w'))
   \<and> (\<exists>lg' w'. WriteToFile logger_app_buffered world_app = Some (lg', w')
      \<and> mBufferList lg' = [] \<and> fs_files w' app_log = Some (app_banner @ ''L1L2'')
      \<and> SetBuffering False logger_app_buffered world_app = Some (lg'\<lparr>mBuffering := False\<rparr>, w'))
   \<and> (\<exists>lg' w'. WriteToFile logger_app_buffered_small world_later = Some (lg', w')
      \<and> mBufferList lg' = []
      \<and> fs_files w' app_log = Some (app_banner @ ''L1'')
      \<and> fs_files w' ''/home/app_20240102_030459.log'' = Some ''L2''
      \<and> mLogFileList lg' = [''app_20240102_030405.log'', ''app_20240102_030459.log''])"
proof -
  have l: "mBufferList logger_three_files = [''L1'', ''L2'', ''L3'']"
    "mUsingStdOut logger_three_files" "mBuffering logger_three_files"
    "m_outString logger_three_files = []"
    by (simp_all add: logger_three_files_def statics_init_def)
  have w: "fs_stdout world_example = []"
    by (simp add: world_example_def)
  from WriteToFile_fifo [of logger_three_files world_example]
  obtain lg' w' where
    "WriteToFile logger_three_files world_example = Some (lg', w')"
    "mBufferList lg' = []"
    "mUsingStdOut logger_three_files \<and> mBufferList logger_three_files \<noteq> [] \<longrightarrow>
       fs_stdout w' = fs_stdout world_example @ m_outString logger_three_files
         @ concat (mBufferList logger_three_files)"
    "mBuffering logger_three_files \<longrightarrow>
       SetBuffering False logger_three_files world_example = Some (lg'\<lparr>mBuffering := False\<rparr>, w')"
    by blast
  then have console: "\<exists>lg' w'. WriteToFile logger_three_files world_example = Some (lg', w')
      \<and> mBufferList lg' = [] \<and> fs_stdout w' = ''L1L2L3''
      \<and> SetBuffering False logger_three_files world_example = Some (lg'\<lparr>mBuffering := False\<rparr>, w')"
    by (simp add: l w)
  have a: "m_logFile logger_app_buffered = Some \<lparr>os_path = app_log, os_open = True\<rparr>"
    "m_logFileName logger_app_buffered = app_log" "m_outString logger_app_buffered = []"
    "mBufferList logger_app_buffered = [''L1'', ''L2'']" "mBuffering logger_app_buffered"
    "mLogFileList logger_app_buffered = [''app_20240102_030405.log'']"
    "unat (mMaxFileNumber logger_app_buffered) = 128"
    "unat (mMaxFileSize logger_app_buffered) = 2097152"
    by (simp_all add: logger_app_buffered_def logger_app_def DEFAULT_MAX_FILE_NUMBER_def
          DEFAULT_MAX_FILE_SIZE_def)
  have v: "fs_files world_app app_log = Some app_banner" "resolve world_app app_log = app_log"
    "app_log \<noteq> []" "length app_banner = 253"
    by (simp_all add: world_app_def app_log_def app_banner_def banner_rule_def resolve_def)
  from WriteToFile_fifo [of logger_app_buffered world_app]
  obtain lg2 w2 where
    "WriteToFile logger_app_buffered world_app = Some (lg2, w2)"
    "mBufferList lg2 = []"
    "\<forall>f c. m_logFile logger_app_buffered = Some f \<and> os_open f
          \<and> fs_files world_app (os_path f) = Some c
          \<and> m_logFileName logger_app_buffered \<noteq> []
          \<and> resolve world_app (m_logFileName logger_app_buffered) = os_path f
          \<and> length (c @ m_outString logger_app_buffered @ concat (mBufferList logger_app_buffered))
              < unat (mMaxFileSize logger_app_buffered)
          \<and> length (mLogFileList logger_app_buffered) \<le> unat (mMaxFileNumber logger_app_buffered)
          \<and> mBufferList logger_app_buffered \<noteq> [] \<longrightarrow>
        fs_files w2 (os_path f)
          = Some (c @ m_outString logger_app_buffered @ concat (mBufferList logger_app_buffered))
        \<and> m_logFile lg2 = Some f"
    "mBuffering logger_app_buffered \<longrightarrow>
       SetBuffering False logger_app_buffered world_app = Some (lg2\<lparr>mBuffering := False\<rparr>, w2)"
    by blast
  then have onfile: "\<exists>lg' w'. WriteToFile logger_app_buffered world_app = Some (lg', w')
      \<and> mBufferList lg' = [] \<and> fs_files w' app_log = Some (app_banner @ ''L1L2'')
      \<and> SetBuffering False logger_app_buffered world_app = Some (lg'\<lparr>mBuffering := False\<rparr>, w')"
    by (simp add: a v)
  have rotating: "\<exists>lg' w'. WriteToFile logger_app_buffered_small world_later = Some (lg', w')
      \<and> mBufferList lg' = []
      \<and> fs_files w' app_log = Some (app_banner @ ''L1'')
      \<and> fs_files w' ''/home/app_20240102_030459.log'' = Some ''L2''
      \<and> mLogFileList lg' = [''app_20240102_030405.log'', ''app_20240102_030459.log'']"
    by (simp add: WriteToFile.simps Get_def Flush_def logger_app_buffered_small_def
          world_later_def SetMaxFileSize_def logger_app_def world_app_def app_log_def
          app_banner_def eval_defs)
  from console onfile rotating show ?thesis
    by (intro conjI)
qed

section \<open>The threshold\<close>

text \<open>
  Claim C4. A message of severity \<open>s\<close> is recorded exactly when \<open>s\<close> is at most the
  threshold, in the numeric order of the levels (\<^verbatim>\<open>isDisplayed\<close> is this comparison). Above
  the threshold \<^verbatim>\<open>log\<close> changes nothing at all. At or below it, the line made of the time
  stamp, the severity tag and the message reaches every sink of the logger; with the
  console as sink, the output changes if and only if \<open>s\<close> is at most the threshold.
\<close>

theorem log_threshold:
  "isDisplayed s lg = (s \<le> m_leastSeverity lg)
   \<and> (\<not> s \<le> m_leastSeverity lg \<longrightarrow> log s input lg w = (lg, w))
   \<and> (s \<le> m_leastSeverity lg \<longrightarrow>
        line_recorded
          (m_outString lg @ fst (TimeStamp True w) @ '' ['' @ severityToString s @ ''] '' @ input
             @ ''\<newline>'')
          lg w (snd (log s input lg w)))
   \<and> (mUsingStdOut lg \<longrightarrow>
        (fs_stdout (snd (log s input lg w)) \<noteq> fs_stdout w) = (s \<le> m_leastSeverity lg))"
proof -
  obtain ts w1 where ts: "TimeStamp True w = (ts, w1)"
    by (cases "TimeStamp True w")
  then have w1: "w1 = w\<lparr>fs_ticks := fs_ticks w + 2\<rparr>"
    using TimeStamp_world [of True w] by simp
  let ?line = "m_outString lg @ ts @ '' ['' @ severityToString s @ ''] '' @ input @ ''\<newline>''"
  let ?lg = "lg\<lparr>m_outString := ?line\<rparr>"
  have l: "s \<le> m_leastSeverity lg \<longrightarrow> log s input lg w = writeLog ?lg w1"
    by (simp add: log_def ts)
  have r: "line_recorded ?line lg w (snd (writeLog ?lg w1))"
    unfolding w1 by (rule writeLog_line_recorded)
  have o: "mUsingStdOut lg \<longrightarrow> fs_stdout (snd (writeLog ?lg w1)) \<noteq> fs_stdout w"
    by (simp add: writeLog_stdout w1)
  show ?thesis
    using l r o by (auto simp: isDisplayed_def ts log_def)
qed

theorem log_threshold_witness:
  "log eLOG_DEBUG ''x'' logger_console world_example = (logger_console, world_example)
   \<and> fs_stdout (snd (log eLOG_HIGH ''y'' logger_console world_example))
       = fs_stdout world_example @ ''2024-01-02 03:04:05.123 [HIGH_] y\<newline>''"
proof -
  have l: "m_leastSeverity logger_console = eLOG_MED" "mUsingStdOut logger_console"
    "m_outString logger_console = []"
    by (simp_all add: logger_console_def Logger_console_def start_banner_def writeLog_frame
          split: prod.splits)
  have t: "fst (TimeStamp True world_example) = ''2024-01-02 03:04:05.123''"
    by (simp add: eval_defs)
  from log_threshold [of eLOG_DEBUG logger_console "''x''" world_example]
    log_threshold [of eLOG_HIGH logger_console "''y''" world_example]
  show ?thesis
    by (simp add: l t line_recorded_def severity_defs severityToString_def s_severityString_def
          s_severityString_table_def setw_left_def)
qed

text \<open>
  Claim C7. For a severity outside \<open>eLOG_CRIT .. eLOG_LAST\<close>, \<^verbatim>\<open>setSeverity\<close> returns false,
  leaves the threshold as it was and still records the line that reports the rejected
  value. For a severity inside the range it returns true and the threshold is that value.
\<close>

theorem setSeverity_range:
  "(s < eLOG_CRIT \<or> s > eLOG_LAST \<longrightarrow>
      fst (setSeverity s lg w) = False
      \<and> m_leastSeverity (fst (snd (setSeverity s lg w))) = m_leastSeverity lg
      \<and> line_recorded
          (m_outString lg @ fst (TimeStamp True w) @ '' ERROR: Invalid verbosity specified, ''
             @ show_int s @ ''\<newline>'')
          lg w (snd (snd (setSeverity s lg w))))
   \<and> (eLOG_CRIT \<le> s \<and> s \<le> eLOG_LAST \<longrightarrow>
      fst (setSeverity s lg w) = True
      \<and> m_leastSeverity (fst (snd (setSeverity s lg w))) = s)"
proof -
  obtain ts w1 where ts: "TimeStamp True w = (ts, w1)"
    by (cases "TimeStamp True w")
  then have w1: "w1 = w\<lparr>fs_ticks := fs_ticks w + 2\<rparr>"
    using TimeStamp_world [of True w] by simp
  let ?line = "m_outString lg @ ts @ '' ERROR: Invalid verbosity specified, '' @ show_int s @ ''\<newline>''"
  let ?lg = "lg\<lparr>m_outString := ?line\<rparr>"
  have r: "line_recorded ?line lg w (snd (writeLog ?lg w1))"
    unfolding w1 by (rule writeLog_line_recorded)
  have bad: "s < eLOG_CRIT \<or> s > eLOG_LAST \<longrightarrow> setSeverity s lg w = (False, writeLog ?lg w1)"
    by (simp add: setSeverity_def ts)
  have good: "eLOG_CRIT \<le> s \<and> s \<le> eLOG_LAST \<longrightarrow>
      fst (setSeverity s lg w) = True \<and> m_leastSeverity (fst (snd (setSeverity s lg w))) = s"
    by (auto simp: setSeverity_def ts writeLog_frame)
  show ?thesis
    using r bad good by (auto simp: ts writeLog_frame)
qed

theorem setSeverity_range_witness:
  "fst (setSeverity 99 logger_console world_example) = False
   \<and> m_leastSeverity (fst (snd (setSeverity 99 logger_console world_example))) = eLOG_MED
   \<and> fs_stdout (snd (snd (setSeverity 99 logger_console world_example)))
       = fs_stdout world_example @ ''2024-01-02 03:04:05.123 ERROR: Invalid verbosity specified, 99\<newline>''
   \<and> fst (setSeverity eLOG_INFO logger_console world_example) = True
   \<and> m_leastSeverity (fst (snd (setSeverity eLOG_INFO logger_console world_example))) = eLOG_INFO"
proof -
  have l: "m_leastSeverity logger_console = eLOG_MED" "mUsingStdOut logger_console"
    "m_outString logger_console = []"
    by (simp_all add: logger_console_def Logger_console_def start_banner_def writeLog_frame
          split: prod.splits)
  have t: "fst (TimeStamp True world_example) = ''2024-01-02 03:04:05.123''"
    by (simp add: eval_defs)
  from setSeverity_range [of 99 logger_console world_example]
    setSeverity_range [of eLOG_INFO logger_console world_example]
  show ?thesis
    by (simp add: l t line_recorded_def severity_defs show_int_def digit_def dec.simps)
qed

section \<open>Buffering and the write path\<close>

text \<open>
  Claim C1, at the logger that \<^verbatim>\<open>Logger log("app");\<close> constructs: buffering is on (the
  constructor sets it) and the buffer is empty. \<^verbatim>\<open>log(eLOG_HIGH, "y")\<close> then leaves the
  buffer empty and appends the line to the active file at once. Nothing in Logger.cpp
  reads \<^verbatim>\<open>mBuffering\<close> on the write path or adds to \<^verbatim>\<open>mBufferList\<close>.
\<close>

theorem log_with_buffering_on:
  "Logger_file ''app'' eLOG_MED statics_init world_example = (logger_app, world_app)
   \<and> mBuffering logger_app \<and> mBufferList logger_app = []
   \<and> m_logFile logger_app = Some \<lparr>os_path = app_log, os_open = True\<rparr>
   \<and> fs_files world_app app_log = Some app_banner
   \<and> mBufferList (fst (log eLOG_HIGH ''y'' logger_app world_app)) = []
   \<and> fs_files (snd (log eLOG_HIGH ''y'' logger_app world_app)) app_log
       = Some (app_banner @ ''2024-01-02 03:04:05.123 [HIGH_] y\<newline>'')"
proof -
  have "mBufferList (fst (log eLOG_HIGH ''y'' logger_app world_app)) = []
   \<and> fs_files (snd (log eLOG_HIGH ''y'' logger_app world_app)) app_log
       = Some (app_banner @ ''2024-01-02 03:04:05.123 [HIGH_] y\<newline>'')"
    by (simp add: logger_app_def world_app_def app_log_def eval_defs)
  then show ?thesis
    by (simp add: Logger_file_example) (simp add: logger_app_def world_app_def)
qed

section \<open>The directory scan\<close>

text \<open>
  Claim C2, at two scans of \<open>/home\<close>. With the stem \<open>app\<close>, the entry
  \<open>app_2024-01-02_030405\<close> has the stem as its prefix and the length of the stem plus
  18, and is not selected. With a stem of 18 characters, an entry of 36 characters that
  ends with the stem and starts with something else is selected. The test compares the
  stem with \<^verbatim>\<open>entry.substr(filenamebase.size())\<close>, the entry without its first characters,
  not with the first characters.
\<close>

theorem MakeFileList_selection:
  "mLogFileList (fst (snd (MakeFileList (statics_init\<lparr>mFileNameBase := ''app''\<rparr>) world_example))) = []
   \<and> mLogFileList (fst (snd (MakeFileList (statics_init\<lparr>mFileNameBase := ''abcdefghijklmnopqr''\<rparr>)
                                world_example)))
       = [''/home/XXXXXXXXXXXXXXXXXXabcdefghijklmnopqr'']"
  by (simp add: eval_defs)

text \<open>
  Claim C9, at a scan for the base name \<open>/logs/app\<close> from the working directory \<open>/home\<close>,
  where \<open>/logs\<close> can be entered but not listed: the scan returns true (\<^verbatim>\<open>EXIT_FAILURE\<close>
  converted to \<^verbatim>\<open>bool\<close>) from the branch of the failed \<^verbatim>\<open>opendir\<close>, before the \<^verbatim>\<open>chdir\<close>
  back, and the working directory of the process is \<open>/logs\<close> afterwards.
\<close>

theorem MakeFileList_cwd_not_restored:
  "fs_cwd world_example = ''/home''
   \<and> MakeFileList (statics_init\<lparr>mFileNameBase := ''/logs/app''\<rparr>) world_example
       = (True, statics_init\<lparr>mFileNameBase := ''/logs/app''\<rparr>, world_example\<lparr>fs_cwd := ''/logs''\<rparr>)"
  by (simp add: eval_defs)

section \<open>The names of new files\<close>

lemma is_digit_digit: "is_digit (digit d)"
proof -
  have "k < 10 \<Longrightarrow> is_digit (''0123456789'' ! k)" for k
    by (simp add: is_digit_def nth_Cons' )
  then show ?thesis
    by (simp add: digit_def)
qed

lemma dec_one: "n < 10 \<Longrightarrow> dec n = [digit n]"
  by (subst dec.simps) simp

lemma dec_two: "10 \<le> n \<Longrightarrow> n < 100 \<Longrightarrow> dec n = [digit (n div 10), digit (n mod 10)]"
  by (subst dec.simps) (simp add: dec_one)

lemma dec_three:
  "100 \<le> n \<Longrightarrow> n < 1000 \<Longrightarrow> dec n = [digit (n div 100), digit (n div 10 mod 10), digit (n mod 10)]"
proof -
  assume a: "100 \<le> n" "n < 1000"
  then have "10 \<le> n div 10" "n div 10 < 100"
    by simp_all
  from dec_two [OF this] a show ?thesis
    by (subst dec.simps) (simp add: div_mult2_eq [symmetric])
qed

lemma dec_four:
  "1000 \<le> n \<Longrightarrow> n < 10000 \<Longrightarrow>
     dec n = [digit (n div 1000), digit (n div 100 mod 10), digit (n div 10 mod 10), digit (n mod 10)]"
proof -
  assume a: "1000 \<le> n" "n < 10000"
  then have "100 \<le> n div 10" "n div 10 < 1000"
    by simp_all
  from dec_three [OF this] a show ?thesis
    by (subst dec.simps) (simp add: div_mult2_eq [symmetric])
qed

lemma zero_pad_two:
  "n < 100 \<Longrightarrow> zero_pad 2 n = [digit (n div 10), digit (n mod 10)]"
proof (cases "n < 10")
  case True
  then show ?thesis
    by (simp add: zero_pad_def digit_def dec_one)
next
  case False
  assume "n < 100"
  with False show ?thesis
    by (simp add: zero_pad_def dec_two)
qed

lemma GetDateStr_plain:
  assumes "tm_calendar (fs_wall w (fs_ticks w))"
  shows "\<exists>a b c d e f g h. fst (GetDateStr False w) = [a, b, c, d, e, f, g, h]
           \<and> is_digit a \<and> is_digit b \<and> is_digit c \<and> is_digit d
           \<and> is_digit e \<and> is_digit f \<and> is_digit g \<and> is_digit h"
proof -
  define t where "t = fs_wall w (fs_ticks w)"
  from assms have y: "1000 \<le> 1900 + tm_year t" "1900 + tm_year t < 10000"
    and m: "Suc (tm_mon t) < 100" and d: "tm_mday t < 100"
    by (simp_all add: tm_calendar_def t_def)
  have e: "strftime_expand ''%Y%m%d'' t =
      [digit ((1900 + tm_year t) div 1000), digit ((1900 + tm_year t) div 100 mod 10),
       digit ((1900 + tm_year t) div 10 mod 10), digit ((1900 + tm_year t) mod 10),
       digit (Suc (tm_mon t) div 10), digit (Suc (tm_mon t) mod 10),
       digit (tm_mday t div 10), digit (tm_mday t mod 10)]"
    using y m d by (simp add: strftime_conv_def dec_four zero_pad_two)
  show ?thesis
    by (simp add: GetDateStr_def time_now_def strftime_def Let_def t_def [symmetric] e
          is_digit_digit del: strftime_expand.simps)
qed

lemma GetTimeStr_plain:
  assumes "tm_calendar (fs_wall w (fs_ticks w + 1))"
  shows "\<exists>a b c d e f. fst (GetTimeStr False False w) = [a, b, c, d, e, f]
           \<and> is_digit a \<and> is_digit b \<and> is_digit c \<and> is_digit d \<and> is_digit e \<and> is_digit f"
proof -
  define t where "t = fs_wall w (Suc (fs_ticks w))"
  from assms have h: "tm_hour t < 100" and m: "tm_min t < 100" and s: "tm_sec t < 100"
    by (simp_all add: tm_calendar_def t_def)
  have e: "strftime_expand ''%H%M%S'' t =
      [digit (tm_hour t div 10), digit (tm_hour t mod 10),
       digit (tm_min t div 10), digit (tm_min t mod 10),
       digit (tm_sec t div 10), digit (tm_sec t mod 10)]"
    using h m s by (simp add: strftime_conv_def zero_pad_two)
  show ?thesis
    by (simp add: GetTimeStr_def clock_gettime_def time_now_def strftime_def Let_def
          t_def [symmetric] e is_digit_digit del: strftime_expand.simps)
qed

lemma rotated_name_code_shape:
  assumes "is_digit a1" "is_digit a2" "is_digit a3" "is_digit a4" "is_digit a5" "is_digit a6"
    "is_digit a7" "is_digit a8" "is_digit b1" "is_digit b2" "is_digit b3" "is_digit b4"
    "is_digit b5" "is_digit b6"
  shows "rotated_name code_shape base
           (base @ ''_'' @ [a1, a2, a3, a4, a5, a6, a7, a8] @ ''_'' @ [b1, b2, b3, b4, b5, b6] @ ''.log'')"
  using assms by (simp add: rotated_name_def code_shape_def)

text \<open>
  Claim C3, as the code has it. Every name made by \<^verbatim>\<open>AddNewFileName\<close> (the only place
  where a name is made, for the first file and at every rotation) is the base name as it
  was given, an underscore, the date as eight digits without separators, an underscore,
  the time as six digits, and \<open>.log\<close>; it is appended to the tracked list.
\<close>

theorem AddNewFileName_form:
  assumes "tm_calendar (fs_wall w (fs_ticks w))" and "tm_calendar (fs_wall w (fs_ticks w + 2))"
  shows "rotated_name code_shape (mFileNameBase lg) (m_logFileName (fst (AddNewFileName lg w)))
         \<and> mLogFileList (fst (AddNewFileName lg w))
             = mLogFileList lg @ [m_logFileName (fst (AddNewFileName lg w))]
         \<and> m_logFileName (fst (AddNewFileName lg w))
             = mFileNameBase lg @ ''_'' @ fst (GetDateStr False w) @ ''_''
                 @ fst (GetTimeStr False False (snd (GetDateStr False w))) @ ''.log''"
proof -
  obtain ds w1 where ds: "GetDateStr False w = (ds, w1)"
    by (cases "GetDateStr False w")
  obtain ts w2 where ts: "GetTimeStr False False w1 = (ts, w2)"
    by (cases "GetTimeStr False False w1")
  from ds have w1: "w1 = w\<lparr>fs_ticks := fs_ticks w + 1\<rparr>"
    using GetDateStr_world [of False w] by simp
  have c1: "tm_calendar (fs_wall w1 (fs_ticks w1 + 1))"
    using assms(2) by (simp add: w1)
  from GetDateStr_plain [OF assms(1)] ds
  obtain a1 a2 a3 a4 a5 a6 a7 a8
    where dd: "ds = [a1, a2, a3, a4, a5, a6, a7, a8]"
      and da: "is_digit a1" "is_digit a2" "is_digit a3" "is_digit a4" "is_digit a5" "is_digit a6"
        "is_digit a7" "is_digit a8"
    by auto
  from GetTimeStr_plain [OF c1] ts
  obtain b1 b2 b3 b4 b5 b6
    where tt: "ts = [b1, b2, b3, b4, b5, b6]"
      and db: "is_digit b1" "is_digit b2" "is_digit b3" "is_digit b4" "is_digit b5" "is_digit b6"
    by auto
  have name: "m_logFileName (fst (AddNewFileName lg w)) = mFileNameBase lg @ ''_'' @ ds @ ''_'' @ ts @ ''.log''"
    and list: "mLogFileList (fst (AddNewFileName lg w))
             = mLogFileList lg @ [mFileNameBase lg @ ''_'' @ ds @ ''_'' @ ts @ ''.log'']"
    by (simp_all add: AddNewFileName_def ds ts Let_def)
  have "rotated_name code_shape (mFileNameBase lg) (mFileNameBase lg @ ''_'' @ ds @ ''_'' @ ts @ ''.log'')"
    unfolding dd tt by (rule rotated_name_code_shape [OF da db])
  then show ?thesis
    by (simp add: name list ds ts)
qed

theorem AddNewFileName_form_witness:
  "tm_calendar tm_example
   \<and> rotated_name code_shape ''app'' ''app_20240102_030405.log''
   \<and> mLogFileList (fst (AddNewFileName (statics_init\<lparr>mFileNameBase := ''app''\<rparr>) world_example))
       = [''app_20240102_030405.log'']"
proof -
  have c: "tm_calendar tm_example"
    by (simp add: tm_calendar_def tm_example_def)
  then have c1: "tm_calendar (fs_wall world_example (fs_ticks world_example))"
    and c2: "tm_calendar (fs_wall world_example (fs_ticks world_example + 2))"
    by (simp_all add: world_example_def)
  have n: "m_logFileName (fst (AddNewFileName (statics_init\<lparr>mFileNameBase := ''app''\<rparr>) world_example))
     = ''app_20240102_030405.log''"
    by (simp add: eval_defs)
  from AddNewFileName_form [OF c1 c2, of "statics_init\<lparr>mFileNameBase := ''app''\<rparr>"] c
  show ?thesis
    unfolding n by (simp add: statics_init_def)
qed

text \<open>
  With the clock at 2024-01-02 03:04:05 the name is \<open>app_20240102_030405.log\<close>, which is
  not of the form with a date separated by dashes.
\<close>

theorem AddNewFileName_form_counterexample:
  "m_logFileName (fst (AddNewFileName (statics_init\<lparr>mFileNameBase := ''app''\<rparr>) world_example))
     = ''app_20240102_030405.log''
   \<and> \<not> rotated_name spec_shape ''app''
         (m_logFileName (fst (AddNewFileName (statics_init\<lparr>mFileNameBase := ''app''\<rparr>) world_example)))"
proof -
  have n: "m_logFileName (fst (AddNewFileName (statics_init\<lparr>mFileNameBase := ''app''\<rparr>) world_example))
     = ''app_20240102_030405.log''"
    by (simp add: eval_defs)
  show ?thesis
    unfolding n by (simp add: rotated_name_def spec_shape_def is_digit_def)
qed

section \<open>Rotation\<close>

lemmas later_defs =
  logger_small_def logger_roomy_def world_later_def SetMaxFileSize_def SetMaxFileNumber_def
  logger_app_def world_app_def app_log_def app_banner_def

lemma Size_after_write:
  assumes "fs_files w1 = fs_files w" "fs_cwd w1 = fs_cwd w"
  shows "Size lg w \<le>
     Size (lg\<lparr>m_outString := []\<rparr>)
       (case m_logFile lg of
          None \<Rightarrow> w1
        | Some f \<Rightarrow> if os_open f then ofstream_write f ss w1 else w1)"
  using assms by (auto simp: Size_def ofstream_write_def resolve_def split: option.splits)

lemma AddNewFileName_name_cong:
  assumes "mFileNameBase lg = mFileNameBase lg2" "fs_wall w = fs_wall w2" "fs_mono w = fs_mono w2"
    "fs_ticks w = fs_ticks w2" "fs_junk w = fs_junk w2"
  shows "m_logFileName (fst (AddNewFileName lg w)) = m_logFileName (fst (AddNewFileName lg2 w2))"
  using assms
  by (simp add: AddNewFileName_def GetDateStr_def GetTimeStr_def time_now_def clock_gettime_def
        Let_def split: prod.splits)

lemma AddNewFileName_name_nonempty:
  "m_logFileName (fst (AddNewFileName lg w)) \<noteq> []"
  by (simp add: AddNewFileName_def Let_def split: prod.splits)

lemma ofstream_new_stream:
  "p \<noteq> [] \<Longrightarrow> fst (ofstream_new p w) = \<lparr>os_path = resolve w p, os_open = fs_openable w (resolve w p)\<rparr>"
  by (simp add: ofstream_new_def Let_def)

lemma ofstream_new_file:
  "p \<noteq> [] \<Longrightarrow> fs_openable w (resolve w p) \<Longrightarrow> fs_files (snd (ofstream_new p w)) (resolve w p) \<noteq> None"
  by (simp add: ofstream_new_def Let_def)

text \<open>
  Claim C6, as the code has it. When there is a stream and the file named by
  \<^verbatim>\<open>m_logFileName\<close> has reached \<^verbatim>\<open>mMaxFileSize\<close>, the next \<^verbatim>\<open>writeLog\<close> drops the stream,
  makes the name \<^verbatim>\<open>AddNewFileName\<close> makes, opens a stream on it (open exactly when the path
  can be opened) and appends the name to the tracked list; the retention loop of the same
  call then removes heads, so that the list ends with length
  \<open>min (n + 1) mMaxFileNumber\<close> for a list of length \<open>n\<close> before. When \<open>n\<close> is below
  \<^verbatim>\<open>mMaxFileNumber\<close> nothing is removed: the list has grown by exactly the new name, and
  the new file exists if it could be opened.
\<close>

theorem writeLog_rotation:
  assumes "m_logFile lg \<noteq> None" and "unat (mMaxFileSize lg) \<le> Size lg w"
  shows "m_logFileName (fst (writeLog lg w)) = m_logFileName (fst (AddNewFileName lg w))
    \<and> m_logFile (fst (writeLog lg w))
        = Some \<lparr>os_path = resolve w (m_logFileName (fst (writeLog lg w))),
                 os_open = fs_openable w (resolve w (m_logFileName (fst (writeLog lg w))))\<rparr>
    \<and> mLogFileList (fst (writeLog lg w))
        = drop (length (mLogFileList lg) + 1 - unat (mMaxFileNumber lg))
            (mLogFileList lg @ [m_logFileName (fst (writeLog lg w))])
    \<and> length (mLogFileList (fst (writeLog lg w)))
        = min (length (mLogFileList lg) + 1) (unat (mMaxFileNumber lg))
    \<and> (length (mLogFileList lg) < unat (mMaxFileNumber lg) \<longrightarrow>
          mLogFileList (fst (writeLog lg w)) = mLogFileList lg @ [m_logFileName (fst (writeLog lg w))]
          \<and> length (mLogFileList (fst (writeLog lg w))) = length (mLogFileList lg) + 1
          \<and> (fs_openable w (resolve w (m_logFileName (fst (writeLog lg w)))) \<longrightarrow>
                fs_files (snd (writeLog lg w)) (resolve w (m_logFileName (fst (writeLog lg w)))) \<noteq> None))"
proof -
  define w1 where "w1 = (if mUsingStdOut lg then w\<lparr>fs_stdout := fs_stdout w @ m_outString lg\<rparr> else w)"
  define w2 where "w2 = (case m_logFile lg of None \<Rightarrow> w1
        | Some f \<Rightarrow> if os_open f then ofstream_write f (m_outString lg) w1 else w1)"
  define lg0 where "lg0 = lg\<lparr>m_outString := []\<rparr>"
  define n where "n = m_logFileName (fst (AddNewFileName lg w))"
  define w3 where "w3 = w2\<lparr>fs_ticks := fs_ticks w2 + 3\<rparr>"
  have wl: "writeLog lg w = EnforceLogFileLimits lg0 w2"
    unfolding writeLog_def Let_def w1_def w2_def lg0_def by (rule refl)
  have frame: "fs_wall w2 = fs_wall w" "fs_mono w2 = fs_mono w" "fs_ticks w2 = fs_ticks w"
    "fs_junk w2 = fs_junk w" "fs_cwd w2 = fs_cwd w" "fs_openable w2 = fs_openable w"
    by (simp_all add: w2_def w1_def ofstream_write_def split: option.splits)
  have res: "resolve w3 = resolve w"
    by (simp add: fun_eq_iff resolve_def w3_def frame)
  have opn: "fs_openable w3 = fs_openable w"
    by (simp add: w3_def frame)
  have "Size lg w \<le> Size lg0 w2"
    unfolding lg0_def w2_def by (rule Size_after_write) (simp_all add: w1_def)
  with assms(2) have sz: "unat (mMaxFileSize lg0) \<le> Size lg0 w2"
    by (simp add: lg0_def)
  have ne: "m_logFile lg0 \<noteq> None"
    using assms(1) by (simp add: lg0_def)
  have n0: "m_logFileName (fst (AddNewFileName lg0 w2)) = n"
    unfolding n_def by (rule AddNewFileName_name_cong) (simp_all add: lg0_def frame)
  have nn: "n \<noteq> []"
    by (simp add: n_def AddNewFileName_name_nonempty)
  have rot: "writeLog lg w =
      EnforceLogFileLimits_evict
        (lg0\<lparr>mLogFileList := mLogFileList lg0 @ [n], m_logFileName := n,
             m_logFile := Some (fst (ofstream_new n w3))\<rparr>)
        (snd (ofstream_new n w3))"
    by (simp add: wl EnforceLogFileLimits_rotate [OF ne sz] n0 Let_def w3_def)
  have name: "m_logFileName (fst (writeLog lg w)) = n"
    by (simp add: rot evict_closed)
  have stream: "m_logFile (fst (writeLog lg w))
        = Some \<lparr>os_path = resolve w n, os_open = fs_openable w (resolve w n)\<rparr>"
    by (simp add: rot evict_closed ofstream_new_stream [OF nn] res opn)
  have list: "mLogFileList (fst (writeLog lg w))
        = drop (length (mLogFileList lg) + 1 - unat (mMaxFileNumber lg)) (mLogFileList lg @ [n])"
    by (simp add: rot evict_closed lg0_def)
  have len: "length (mLogFileList (fst (writeLog lg w)))
        = min (length (mLogFileList lg) + 1) (unat (mMaxFileNumber lg))"
    by (simp add: list)
  have room: "fs_files (snd (writeLog lg w)) (resolve w n) \<noteq> None"
    if "length (mLogFileList lg) < unat (mMaxFileNumber lg)" "fs_openable w (resolve w n)"
  proof -
    from that(1) have k: "Suc (length (mLogFileList lg)) - unat (mMaxFileNumber lg) = 0"
      by simp
    have "fs_files (snd (ofstream_new n w3)) (resolve w3 n) \<noteq> None"
      by (rule ofstream_new_file [OF nn]) (simp add: res opn that(2))
    then show ?thesis
      by (simp add: rot evict_closed lg0_def k res)
  qed
  show ?thesis
    unfolding name using stream list len room by (simp add: n_def)
qed

theorem writeLog_rotation_witness:
  "m_logFile logger_roomy \<noteq> None
   \<and> unat (mMaxFileSize logger_roomy) \<le> Size logger_roomy world_later
   \<and> mLogFileList logger_roomy = [''app_20240102_030405.log'']
   \<and> mLogFileList (fst (writeLog logger_roomy world_later))
       = [''app_20240102_030405.log'', ''app_20240102_030459.log'']
   \<and> m_logFile (fst (writeLog logger_roomy world_later))
       = Some \<lparr>os_path = ''/home/app_20240102_030459.log'', os_open = True\<rparr>
   \<and> fs_files (snd (writeLog logger_roomy world_later)) ''/home/app_20240102_030459.log'' \<noteq> None"
proof -
  have a: "m_logFile logger_roomy \<noteq> None"
    and b: "unat (mMaxFileSize logger_roomy) \<le> Size logger_roomy world_later"
    and l: "mLogFileList logger_roomy = [''app_20240102_030405.log'']"
    and m: "unat (mMaxFileNumber logger_roomy) = 128"
    by (simp_all add: later_defs eval_defs)
  have n: "m_logFileName (fst (AddNewFileName logger_roomy world_later)) = ''app_20240102_030459.log''"
    by (simp add: later_defs eval_defs)
  have w: "fs_cwd world_later = ''/home''" "fs_openable world_later = (\<lambda>p. True)"
    by (simp_all add: later_defs world_example_def)
  note t = writeLog_rotation [OF a b]
  from t have name: "m_logFileName (fst (writeLog logger_roomy world_later)) = ''app_20240102_030459.log''"
    by (simp add: n)
  from t [unfolded name n] a b l
  show ?thesis
    by (simp add: l m w resolve_def)
qed

text \<open>
  With \<^verbatim>\<open>mMaxFileNumber = 1\<close> and one tracked file that has reached the size limit, the
  write rotates and the list has one element afterwards as before: the new name has
  replaced the old one.
\<close>

theorem writeLog_rotation_counterexample:
  "m_logFile logger_small \<noteq> None
   \<and> 100 \<le> Size logger_small world_later
   \<and> unat (mMaxFileSize logger_small) = 100
   \<and> mLogFileList logger_small = [''app_20240102_030405.log'']
   \<and> mLogFileList (fst (writeLog logger_small world_later)) = [''app_20240102_030459.log'']"
  by (simp add: later_defs eval_defs)

end
